theory Spec2Isabelle
  imports Complex_Main
begin

section \<open>Data model\<close>

text \<open>
  The types of \<^verbatim>\<open>types/index.ts\<close>. Record fields carry a short prefix
  (\<open>msg_\<close>, \<open>conv_\<close>, \<open>job_\<close>, \<open>opt_\<close>, ...) because several interfaces share field
  names (\<^verbatim>\<open>id\<close>, \<^verbatim>\<open>status\<close>, \<^verbatim>\<open>error\<close>, \<^verbatim>\<open>userId\<close>) and the functions
  use others as local variables.
  A \<^verbatim>\<open>Date\<close> is its millisecond time value (\<^verbatim>\<open>getTime()\<close>), an \<open>int\<close>;
  an optional or nullable field is an \<open>option\<close>.
\<close>

datatype message_role = User | Assistant | System

datatype message_status = Sending | Sent | Error

datatype js_value = JsString string | JsNumber rat | JsBool bool | JsNull

text \<open>The metadata bag \<^verbatim>\<open>Record<string, unknown>\<close>: keys with their values.\<close>

type_synonym metadata = "(string \<times> js_value) list"

record message =
  msg_id :: string
  msg_role :: message_role
  msg_content :: string
  msg_timestamp :: int
  msg_status :: "message_status option"
  msg_metadata :: "metadata option"

record conversation =
  conv_id :: string
  conv_title :: string
  conv_userId :: string
  conv_messages :: "message list"
  conv_createdAt :: int
  conv_updatedAt :: int

record pending_job =
  job_jobId :: string
  job_messageId :: string
  job_conversationId :: string
  job_query :: string
  job_startedAt :: int
  job_pollCount :: int

record user_response =
  user_id :: string
  username :: string
  email :: string
  full_name :: "string option"
  created_at :: string

datatype theme = Light | Dark | SystemTheme

record app_settings =
  set_userId :: string
  set_theme :: theme
  set_pollIntervalMs :: int
  set_maxPollAttempts :: int
  set_autoScroll :: bool
  set_soundEnabled :: bool

definition DEFAULT_SETTINGS :: app_settings where
  "DEFAULT_SETTINGS =
     \<lparr>set_userId = '''', set_theme = SystemTheme, set_pollIntervalMs = 1000,
      set_maxPollAttempts = 120, set_autoScroll = True, set_soundEnabled = False\<rparr>"

record chat_state =
  conversations :: "conversation list"
  activeConversationId :: "string option"
  isLoading :: bool
  isSending :: bool
  error :: "string option"
  pendingJobs :: "string \<rightharpoonup> pending_job"
  settings :: app_settings
  sidebarOpen :: bool
  uploadModalOpen :: bool

definition initialState :: chat_state where
  "initialState =
     \<lparr>conversations = [], activeConversationId = None, isLoading = False,
      isSending = False, error = None, pendingJobs = Map.empty,
      settings = DEFAULT_SETTINGS, sidebarOpen = True, uploadModalOpen = False\<rparr>"

text \<open>
  \<^verbatim>\<open>Partial<Message>\<close> and \<^verbatim>\<open>Partial<PendingJob>\<close>: every key may be missing
  (\<open>None\<close>). For the optional fields of \<^verbatim>\<open>Message\<close> a present key may itself
  hold \<^verbatim>\<open>undefined\<close> (\<open>Some None\<close>), which \<^verbatim>\<open>Object.assign\<close> copies.
\<close>

record message_updates =
  upd_id :: "string option"
  upd_role :: "message_role option"
  upd_content :: "string option"
  upd_timestamp :: "int option"
  upd_status :: "message_status option option"
  upd_metadata :: "metadata option option"

record pending_job_updates =
  jupd_jobId :: "string option"
  jupd_messageId :: "string option"
  jupd_conversationId :: "string option"
  jupd_query :: "string option"
  jupd_startedAt :: "int option"
  jupd_pollCount :: "int option"

record settings_updates =
  supd_userId :: "string option"
  supd_theme :: "theme option"
  supd_pollIntervalMs :: "int option"
  supd_maxPollAttempts :: "int option"
  supd_autoScroll :: "bool option"
  supd_soundEnabled :: "bool option"

definition no_updates :: message_updates where
  "no_updates =
     \<lparr>upd_id = None, upd_role = None, upd_content = None, upd_timestamp = None,
      upd_status = None, upd_metadata = None\<rparr>"

section \<open>JavaScript helpers\<close>

text \<open>
  Truthiness of a nullable string: \<^verbatim>\<open>null\<close>, \<^verbatim>\<open>undefined\<close> and
  the empty string are falsy.
\<close>

definition truthy :: "string option \<Rightarrow> bool" where
  "truthy v = (case v of None \<Rightarrow> False | Some s \<Rightarrow> s \<noteq> [])"

text \<open>Truthiness of a nullable number: \<^verbatim>\<open>null\<close> and \<open>0\<close> are falsy.\<close>

definition truthy_num :: "rat option \<Rightarrow> bool" where
  "truthy_num v = (case v of None \<Rightarrow> False | Some x \<Rightarrow> x \<noteq> 0)"

text \<open>
  \<^verbatim>\<open>obj[key]\<close> on a plain object such as \<^verbatim>\<open>pendingJobs\<close>: the object's own
  property if it has one, else what \<^verbatim>\<open>Object.prototype\<close> gives under that name
  (its functions, and \<^verbatim>\<open>Object.prototype\<close> itself under \<^verbatim>\<open>__proto__\<close>), else
  \<^verbatim>\<open>undefined\<close>. Every inherited value is an object, hence truthy.
\<close>

definition object_prototype_members :: "string list" where
  "object_prototype_members =
     [''constructor'', ''__defineGetter__'', ''__defineSetter__'', ''hasOwnProperty'',
      ''__lookupGetter__'', ''__lookupSetter__'', ''isPrototypeOf'', ''propertyIsEnumerable'',
      ''toString'', ''valueOf'', ''__proto__'', ''toLocaleString'']"

datatype 'a js_lookup = Own 'a | Inherited string | Undefined

definition js_get :: "(string \<rightharpoonup> 'a) \<Rightarrow> string \<Rightarrow> 'a js_lookup" where
  "js_get obj key =
     (case obj key of
        Some v \<Rightarrow> Own v
      | None \<Rightarrow> if key \<in> set object_prototype_members then Inherited key else Undefined)"

text \<open>
  \<^verbatim>\<open>xs.find(p)\<close> followed by an in-place mutation of the element found: the
  first element that satisfies \<open>p\<close> is replaced by its image, nothing else moves.
\<close>

fun mutate_found :: "('a \<Rightarrow> bool) \<Rightarrow> ('a \<Rightarrow> 'a) \<Rightarrow> 'a list \<Rightarrow> 'a list" where
  "mutate_found p f [] = []"
| "mutate_found p f (x # xs) = (if p x then f x # xs else x # mutate_found p f xs)"

text \<open>
  \<^verbatim>\<open>i = xs.findIndex(p); if (i !== -1) xs.splice(i, 1)\<close>: the first element that
  satisfies \<open>p\<close> is removed.
\<close>

fun splice_found :: "('a \<Rightarrow> bool) \<Rightarrow> 'a list \<Rightarrow> 'a list" where
  "splice_found p [] = []"
| "splice_found p (x # xs) = (if p x then xs else x # splice_found p xs)"

text \<open>\<^verbatim>\<open>Object.assign(message, updates)\<close> and \<^verbatim>\<open>Object.assign(job, updates)\<close>.\<close>

definition assign_message :: "message \<Rightarrow> message_updates \<Rightarrow> message" where
  "assign_message m u =
     m\<lparr>msg_id := (case upd_id u of None \<Rightarrow> msg_id m | Some v \<Rightarrow> v),
       msg_role := (case upd_role u of None \<Rightarrow> msg_role m | Some v \<Rightarrow> v),
       msg_content := (case upd_content u of None \<Rightarrow> msg_content m | Some v \<Rightarrow> v),
       msg_timestamp := (case upd_timestamp u of None \<Rightarrow> msg_timestamp m | Some v \<Rightarrow> v),
       msg_status := (case upd_status u of None \<Rightarrow> msg_status m | Some v \<Rightarrow> v),
       msg_metadata := (case upd_metadata u of None \<Rightarrow> msg_metadata m | Some v \<Rightarrow> v)\<rparr>"

definition assign_job :: "pending_job \<Rightarrow> pending_job_updates \<Rightarrow> pending_job" where
  "assign_job j u =
     j\<lparr>job_jobId := (case jupd_jobId u of None \<Rightarrow> job_jobId j | Some v \<Rightarrow> v),
       job_messageId := (case jupd_messageId u of None \<Rightarrow> job_messageId j | Some v \<Rightarrow> v),
       job_conversationId :=
         (case jupd_conversationId u of None \<Rightarrow> job_conversationId j | Some v \<Rightarrow> v),
       job_query := (case jupd_query u of None \<Rightarrow> job_query j | Some v \<Rightarrow> v),
       job_startedAt := (case jupd_startedAt u of None \<Rightarrow> job_startedAt j | Some v \<Rightarrow> v),
       job_pollCount := (case jupd_pollCount u of None \<Rightarrow> job_pollCount j | Some v \<Rightarrow> v)\<rparr>"

definition assign_settings :: "app_settings \<Rightarrow> settings_updates \<Rightarrow> app_settings" where
  "assign_settings a u =
     a\<lparr>set_userId := (case supd_userId u of None \<Rightarrow> set_userId a | Some v \<Rightarrow> v),
       set_theme := (case supd_theme u of None \<Rightarrow> set_theme a | Some v \<Rightarrow> v),
       set_pollIntervalMs :=
         (case supd_pollIntervalMs u of None \<Rightarrow> set_pollIntervalMs a | Some v \<Rightarrow> v),
       set_maxPollAttempts :=
         (case supd_maxPollAttempts u of None \<Rightarrow> set_maxPollAttempts a | Some v \<Rightarrow> v),
       set_autoScroll := (case supd_autoScroll u of None \<Rightarrow> set_autoScroll a | Some v \<Rightarrow> v),
       set_soundEnabled :=
         (case supd_soundEnabled u of None \<Rightarrow> set_soundEnabled a | Some v \<Rightarrow> v)\<rparr>"

section \<open>The conversation store (chat store)\<close>

text \<open>
  Every action is a function from the store state to the new one. What the
  code reads from its surroundings is an argument: \<open>now\<close> is the time value of
  \<^verbatim>\<open>new Date()\<close>, \<open>ident\<close> and \<open>messageId\<close> are values of \<^verbatim>\<open>generateId()\<close>,
  \<open>authUser\<close> is \<^verbatim>\<open>useAuthStore.getState().user\<close>, and
  \<open>extractConversationTitle\<close> is the helper of \<^verbatim>\<open>lib/utils\<close>, a function
  from the content to the title.
\<close>

definition createConversation ::
  "string \<Rightarrow> int \<Rightarrow> user_response option \<Rightarrow> chat_state \<Rightarrow> string \<times> chat_state" where
  "createConversation ident now authUser state =
     (let userId =
            (if truthy (map_option user_id authUser) then the (map_option user_id authUser)
             else if set_userId (settings state) \<noteq> [] then set_userId (settings state)
             else ''anonymous'');
          newConversation =
            \<lparr>conv_id = ident, conv_title = ''New Conversation'', conv_userId = userId,
             conv_messages = [], conv_createdAt = now, conv_updatedAt = now\<rparr>
      in (ident,
          state\<lparr>conversations := newConversation # conversations state,
                activeConversationId := Some ident,
                error := None\<rparr>))"

definition deleteConversation :: "string \<Rightarrow> chat_state \<Rightarrow> chat_state" where
  "deleteConversation ident state =
     (let remaining = splice_found (\<lambda>c. conv_id c = ident) (conversations state);
          state1 = state\<lparr>conversations := remaining\<rparr>
      in if activeConversationId state1 = Some ident
         then state1\<lparr>activeConversationId :=
                (case remaining of [] \<Rightarrow> None | c # _ \<Rightarrow> Some (conv_id c))\<rparr>
         else state1)"

definition setActiveConversation :: "string option \<Rightarrow> chat_state \<Rightarrow> chat_state" where
  "setActiveConversation ident state = state\<lparr>activeConversationId := ident, error := None\<rparr>"

definition clearConversations :: "chat_state \<Rightarrow> chat_state" where
  "clearConversations state =
     state\<lparr>conversations := [], activeConversationId := None, pendingJobs := Map.empty\<rparr>"

definition getConversation :: "chat_state \<Rightarrow> string \<Rightarrow> conversation option" where
  "getConversation state ident = find (\<lambda>c. conv_id c = ident) (conversations state)"

definition getMessages :: "chat_state \<Rightarrow> string \<Rightarrow> message list" where
  "getMessages state conversationId =
     (case find (\<lambda>c. conv_id c = conversationId) (conversations state) of
        None \<Rightarrow> []
      | Some conversation \<Rightarrow> conv_messages conversation)"

definition updateConversationTitle :: "int \<Rightarrow> string \<Rightarrow> string \<Rightarrow> chat_state \<Rightarrow> chat_state" where
  "updateConversationTitle now ident title state =
     state\<lparr>conversations :=
       mutate_found (\<lambda>c. conv_id c = ident)
         (\<lambda>conversation. conversation\<lparr>conv_title := title, conv_updatedAt := now\<rparr>)
         (conversations state)\<rparr>"

definition newMessage ::
  "string \<Rightarrow> int \<Rightarrow> message_role \<Rightarrow> string \<Rightarrow> metadata option \<Rightarrow> message" where
  "newMessage messageId now role content metadata =
     \<lparr>msg_id = messageId, msg_role = role, msg_content = content, msg_timestamp = now,
      msg_status = (if role = User then Some Sent else None),
      msg_metadata = metadata\<rparr>"

definition addMessage_conversation ::
  "(string \<Rightarrow> string) \<Rightarrow> int \<Rightarrow> message_role \<Rightarrow> string \<Rightarrow> message \<Rightarrow> conversation \<Rightarrow> conversation" where
  "addMessage_conversation extractConversationTitle now role content m conversation =
     (let pushed = conversation\<lparr>conv_messages := conv_messages conversation @ [m],
                                conv_updatedAt := now\<rparr>
      in if role = User \<and>
            length (filter (\<lambda>m. msg_role m = User) (conv_messages pushed)) = 1
         then pushed\<lparr>conv_title := extractConversationTitle content\<rparr>
         else pushed)"

definition addMessage ::
  "(string \<Rightarrow> string) \<Rightarrow> string \<Rightarrow> int \<Rightarrow> string \<Rightarrow> message_role \<Rightarrow> string \<Rightarrow>
   metadata option \<Rightarrow> chat_state \<Rightarrow> string \<times> chat_state" where
  "addMessage extractConversationTitle messageId now conversationId role content metadata state =
     (messageId,
      state\<lparr>conversations :=
        mutate_found (\<lambda>c. conv_id c = conversationId)
          (addMessage_conversation extractConversationTitle now role content
             (newMessage messageId now role content metadata))
          (conversations state)\<rparr>)"

definition updateMessage ::
  "int \<Rightarrow> string \<Rightarrow> string \<Rightarrow> message_updates \<Rightarrow> chat_state \<Rightarrow> chat_state" where
  "updateMessage now conversationId messageId updates state =
     state\<lparr>conversations :=
       mutate_found (\<lambda>c. conv_id c = conversationId)
         (\<lambda>conversation.
            case find (\<lambda>m. msg_id m = messageId) (conv_messages conversation) of
              None \<Rightarrow> conversation
            | Some _ \<Rightarrow>
                conversation\<lparr>conv_messages :=
                  mutate_found (\<lambda>m. msg_id m = messageId) (\<lambda>m. assign_message m updates)
                    (conv_messages conversation),
                  conv_updatedAt := now\<rparr>)
         (conversations state)\<rparr>"

definition updateMessageStatus ::
  "int \<Rightarrow> string \<Rightarrow> string \<Rightarrow> message_status \<Rightarrow> chat_state \<Rightarrow> chat_state" where
  "updateMessageStatus now conversationId messageId status state =
     updateMessage now conversationId messageId
       (no_updates\<lparr>upd_status := Some (Some status)\<rparr>) state"

definition deleteMessage :: "int \<Rightarrow> string \<Rightarrow> string \<Rightarrow> chat_state \<Rightarrow> chat_state" where
  "deleteMessage now conversationId messageId state =
     state\<lparr>conversations :=
       mutate_found (\<lambda>c. conv_id c = conversationId)
         (\<lambda>conversation.
            case find (\<lambda>m. msg_id m = messageId) (conv_messages conversation) of
              None \<Rightarrow> conversation
            | Some _ \<Rightarrow>
                conversation\<lparr>conv_messages :=
                  splice_found (\<lambda>m. msg_id m = messageId) (conv_messages conversation),
                  conv_updatedAt := now\<rparr>)
         (conversations state)\<rparr>"

definition addPendingJob :: "pending_job \<Rightarrow> chat_state \<Rightarrow> chat_state" where
  "addPendingJob job state =
     state\<lparr>pendingJobs := (pendingJobs state)(job_jobId job \<mapsto> job)\<rparr>"

definition removePendingJob :: "string \<Rightarrow> chat_state \<Rightarrow> chat_state" where
  "removePendingJob jobId state =
     state\<lparr>pendingJobs := (pendingJobs state)(jobId := None)\<rparr>"

text \<open>
  \<open>updatePendingJob\<close> reads \<^verbatim>\<open>state.pendingJobs[jobId]\<close> and, when the value is
  truthy, calls \<^verbatim>\<open>Object.assign(job, updates)\<close>. With an own job the store changes.
  With an inherited value the assignment lands on that built-in object, outside
  the store: the second component of the result is that write, the member name
  and the fields written. \<open>getPendingJob\<close> returns the same lookup.
\<close>

definition updatePendingJob ::
  "string \<Rightarrow> pending_job_updates \<Rightarrow> chat_state \<Rightarrow>
   chat_state \<times> (string \<times> pending_job_updates) option" where
  "updatePendingJob jobId updates state =
     (case js_get (pendingJobs state) jobId of
        Own job \<Rightarrow>
          (state\<lparr>pendingJobs := (pendingJobs state)(jobId \<mapsto> assign_job job updates)\<rparr>, None)
      | Inherited member \<Rightarrow> (state, Some (member, updates))
      | Undefined \<Rightarrow> (state, None))"


definition setLoading :: "bool \<Rightarrow> chat_state \<Rightarrow> chat_state" where
  "setLoading loading state = state\<lparr>isLoading := loading\<rparr>"

definition setSending :: "bool \<Rightarrow> chat_state \<Rightarrow> chat_state" where
  "setSending sending state = state\<lparr>isSending := sending\<rparr>"

definition setError :: "string option \<Rightarrow> chat_state \<Rightarrow> chat_state" where
  "setError e state = state\<lparr>error := e\<rparr>"

definition clearError :: "chat_state \<Rightarrow> chat_state" where
  "clearError state = state\<lparr>error := None\<rparr>"

definition updateSettings :: "settings_updates \<Rightarrow> chat_state \<Rightarrow> chat_state" where
  "updateSettings updates state = state\<lparr>settings := assign_settings (settings state) updates\<rparr>"

definition resetSettings :: "chat_state \<Rightarrow> chat_state" where
  "resetSettings state = state\<lparr>settings := DEFAULT_SETTINGS\<rparr>"

definition toggleSidebar :: "chat_state \<Rightarrow> chat_state" where
  "toggleSidebar state = state\<lparr>sidebarOpen := \<not> sidebarOpen state\<rparr>"

definition setSidebarOpen :: "bool \<Rightarrow> chat_state \<Rightarrow> chat_state" where
  "setSidebarOpen opened state = state\<lparr>sidebarOpen := opened\<rparr>"

definition setUploadModalOpen :: "bool \<Rightarrow> chat_state \<Rightarrow> chat_state" where
  "setUploadModalOpen opened state = state\<lparr>uploadModalOpen := opened\<rparr>"

definition getActiveConversation :: "chat_state \<Rightarrow> conversation option" where
  "getActiveConversation state =
     (if \<not> truthy (activeConversationId state) then None
      else find (\<lambda>c. Some (conv_id c) = activeConversationId state) (conversations state))"

text \<open>
  A sequence of store calls, each with the clock reading at the call: one
  constructor for every action of the store that changes its state.
\<close>

datatype store_op =
    CreateConversation string "user_response option"
  | DeleteConversation string
  | SetActiveConversation "string option"
  | UpdateConversationTitle string string
  | ClearConversations
  | AddMessage string string message_role string "metadata option"
  | UpdateMessage string string message_updates
  | UpdateMessageStatus string string message_status
  | DeleteMessage string string
  | AddPendingJob pending_job
  | RemovePendingJob string
  | UpdatePendingJob string pending_job_updates
  | SetLoading bool
  | SetSending bool
  | SetError "string option"
  | ClearError
  | UpdateSettings settings_updates
  | ResetSettings
  | ToggleSidebar
  | SetSidebarOpen bool
  | SetUploadModalOpen bool

fun apply_op :: "(string \<Rightarrow> string) \<Rightarrow> int \<Rightarrow> store_op \<Rightarrow> chat_state \<Rightarrow> chat_state" where
  "apply_op ex now (CreateConversation ident authUser) state =
     snd (createConversation ident now authUser state)"
| "apply_op ex now (DeleteConversation ident) state = deleteConversation ident state"
| "apply_op ex now (SetActiveConversation ident) state = setActiveConversation ident state"
| "apply_op ex now (UpdateConversationTitle ident title) state =
     updateConversationTitle now ident title state"
| "apply_op ex now ClearConversations state = clearConversations state"
| "apply_op ex now (AddMessage messageId conversationId role content metadata) state =
     snd (addMessage ex messageId now conversationId role content metadata state)"
| "apply_op ex now (UpdateMessage conversationId messageId updates) state =
     updateMessage now conversationId messageId updates state"
| "apply_op ex now (UpdateMessageStatus conversationId messageId status) state =
     updateMessageStatus now conversationId messageId status state"
| "apply_op ex now (DeleteMessage conversationId messageId) state =
     deleteMessage now conversationId messageId state"
| "apply_op ex now (AddPendingJob job) state = addPendingJob job state"
| "apply_op ex now (RemovePendingJob jobId) state = removePendingJob jobId state"
| "apply_op ex now (UpdatePendingJob jobId updates) state =
     fst (updatePendingJob jobId updates state)"
| "apply_op ex now (SetLoading loading) state = setLoading loading state"
| "apply_op ex now (SetSending sending) state = setSending sending state"
| "apply_op ex now (SetError e) state = setError e state"
| "apply_op ex now ClearError state = clearError state"
| "apply_op ex now (UpdateSettings updates) state = updateSettings updates state"
| "apply_op ex now ResetSettings state = resetSettings state"
| "apply_op ex now ToggleSidebar state = toggleSidebar state"
| "apply_op ex now (SetSidebarOpen opened) state = setSidebarOpen opened state"
| "apply_op ex now (SetUploadModalOpen opened) state = setUploadModalOpen opened state"

fun run_ops :: "(string \<Rightarrow> string) \<Rightarrow> (int \<times> store_op) list \<Rightarrow> chat_state \<Rightarrow> chat_state" where
  "run_ops ex [] state = state"
| "run_ops ex ((now, op) # ops) state = run_ops ex ops (apply_op ex now op state)"

text \<open>
  \<^verbatim>\<open>generateId()\<close> is meant to return an id that is not in use: along a run,
  every \<open>createConversation\<close> gets an id that no conversation of the store has.
\<close>

fun creates_fresh_id :: "store_op \<Rightarrow> chat_state \<Rightarrow> bool" where
  "creates_fresh_id (CreateConversation ident authUser) state =
     (ident \<notin> conv_id ` set (conversations state))"
| "creates_fresh_id _ state = True"

fun ids_fresh :: "(string \<Rightarrow> string) \<Rightarrow> (int \<times> store_op) list \<Rightarrow> chat_state \<Rightarrow> bool" where
  "ids_fresh ex [] state = True"
| "ids_fresh ex ((now, op) # ops) state =
     (creates_fresh_id op state \<and> ids_fresh ex ops (apply_op ex now op state))"

text \<open>
  A sequence of \<open>addMessage\<close> calls and nothing else: each call is the generated
  message id, the clock reading, the conversation id, the role and the content.
\<close>

record add_call =
  call_messageId :: string
  call_now :: int
  call_conversationId :: string
  call_role :: message_role
  call_content :: string
  call_metadata :: "metadata option"

fun addMessages :: "(string \<Rightarrow> string) \<Rightarrow> add_call list \<Rightarrow> chat_state \<Rightarrow> chat_state" where
  "addMessages ex [] state = state"
| "addMessages ex (c # cs) state =
     addMessages ex cs
       (snd (addMessage ex (call_messageId c) (call_now c) (call_conversationId c)
               (call_role c) (call_content c) (call_metadata c) state))"

section \<open>The auth store\<close>

record token_response =
  access_token :: string
  token_type :: string
  expires_in :: rat
  tr_user :: user_response

record auth_store_state =
  isAuthenticated :: bool
  auth_user :: "user_response option"
  auth_token :: "string option"
  auth_expiresAt :: "rat option"
  auth_isLoading :: bool
  auth_isInitialized :: bool
  auth_error :: "string option"

text \<open>
  \<^verbatim>\<open>localStorage\<close> maps keys to strings. The auth actions work on the pair of
  the auth store's state and the storage: \<open>login\<close> and \<open>logout\<close> call
  \<^verbatim>\<open>localStorage.removeItem\<close> themselves.
\<close>

type_synonym local_storage = "string \<rightharpoonup> string"

type_synonym auth_world = "auth_store_state \<times> local_storage"

text \<open>
  \<open>login\<close> in the order of the source: the expiry is computed from the clock,
  then the storage is purged when the previous user id is truthy and differs
  from the new one (\<open>login_purge\<close>), then \<^verbatim>\<open>set\<close> adopts the new identity
  (\<open>login_adopt\<close>). \<open>login_steps\<close> is the list of the worlds the statements leave
  behind, in order: the world after the \<^verbatim>\<open>if\<close> statement with \<^verbatim>\<open>removeItem\<close>,
  then the world after \<^verbatim>\<open>set\<close>; \<open>login\<close> is the last of them. The sum and the
  product of the expiry are double arithmetic: each gives the double nearest to
  the exact result, and \<open>dbl\<close> is that rounding.
\<close>

definition login_purge :: "token_response \<Rightarrow> auth_world \<Rightarrow> auth_world" where
  "login_purge response w =
     (let previousUserId = map_option user_id (auth_user (fst w));
          newUserId = user_id (tr_user response)
      in if truthy previousUserId \<and> previousUserId \<noteq> Some newUserId
         then (fst w, (snd w)(''rag-chat-storage'' := None))
         else w)"

definition login_adopt :: "rat \<Rightarrow> token_response \<Rightarrow> auth_world \<Rightarrow> auth_world" where
  "login_adopt expiresAt response w =
     ((fst w)\<lparr>isAuthenticated := True,
              auth_user := Some (tr_user response),
              auth_token := Some (access_token response),
              auth_expiresAt := Some expiresAt,
              auth_error := None,
              auth_isLoading := False\<rparr>,
      snd w)"

definition login_steps ::
  "(rat \<Rightarrow> rat) \<Rightarrow> int \<Rightarrow> token_response \<Rightarrow> auth_world \<Rightarrow> auth_world list" where
  "login_steps dbl now response w =
     (let expiresAt = dbl (of_int now + dbl (expires_in response * 1000));
          purged = login_purge response w;
          adopted = login_adopt expiresAt response purged
      in [purged, adopted])"

definition login :: "(rat \<Rightarrow> rat) \<Rightarrow> int \<Rightarrow> token_response \<Rightarrow> auth_world \<Rightarrow> auth_world" where
  "login dbl now response w = last (login_steps dbl now response w)"

definition logout :: "auth_world \<Rightarrow> auth_world" where
  "logout w =
     (let chatStorage = snd w ''rag-chat-storage'';
          storage = (if truthy chatStorage then (snd w)(''rag-chat-storage'' := None) else snd w)
      in ((fst w)\<lparr>isAuthenticated := False, auth_user := None, auth_token := None,
                  auth_expiresAt := None, auth_error := None\<rparr>,
          storage))"

definition isTokenExpired :: "int \<Rightarrow> auth_store_state \<Rightarrow> bool" where
  "isTokenExpired now state =
     (if \<not> truthy (auth_token state) \<or> \<not> truthy_num (auth_expiresAt state) then True
      else (case auth_expiresAt state of
              None \<Rightarrow> True
            | Some expiresAt \<Rightarrow> of_int now \<ge> expiresAt - 30000))"

section \<open>Rehydration of the chat store\<close>

text \<open>
  The callback of \<^verbatim>\<open>onRehydrateStorage\<close> in the persist configuration
  \<^verbatim>\<open>rag-chat-storage\<close>. It receives the restored state, or nothing. The date
  strings of the record are turned back into dates: on time values this is the
  identity, so the first \<^verbatim>\<open>map\<close> leaves the model's conversations as they are.
\<close>

definition onRehydrateStorage :: "auth_store_state \<Rightarrow> chat_state option \<Rightarrow> chat_state option" where
  "onRehydrateStorage authState restored =
     (case restored of
        None \<Rightarrow> None
      | Some state \<Rightarrow>
          (let currentUserId = map_option user_id (auth_user authState);
               conversations0 = conversations state;
               conversations1 =
                 (if truthy currentUserId
                  then filter (\<lambda>conv. Some (conv_userId conv) = currentUserId
                                       \<or> conv_userId conv = ''anonymous'') conversations0
                  else []);
               state1 = state\<lparr>conversations := conversations1\<rparr>
           in if truthy (activeConversationId state1)
              then (case find (\<lambda>c. Some (conv_id c) = activeConversationId state1) conversations1 of
                      None \<Rightarrow> Some (state1\<lparr>activeConversationId := None\<rparr>)
                    | Some activeConv \<Rightarrow> Some state1)
              else Some state1))"

section \<open>Job polling\<close>

datatype job_status_type =
  Queued | Started | Deferred | Finished | Stopped | Scheduled | Failed | Not_found

record job_status_response =
  js_status :: job_status_type
  js_result :: "string option"
  js_error :: "string option"

text \<open>\<^verbatim>\<open>ChatError(message, code)\<close>.\<close>

datatype chat_error = ChatError (err_message: string) (err_code: "string option")

record poll_options =
  opt_initialInterval :: "rat option"
  opt_maxInterval :: "rat option"
  opt_timeout :: "rat option"

definition default_poll_options :: poll_options where
  "default_poll_options = \<lparr>opt_initialInterval = None, opt_maxInterval = None, opt_timeout = None\<rparr>"

text \<open>
  The loop of \<open>pollJobUntilComplete\<close>. The surroundings are two functions:
  \<open>clock k\<close> is the \<open>k\<close>-th reading of \<^verbatim>\<open>Date.now()\<close> (reading 0 is
  \<^verbatim>\<open>startTime\<close>, reading \<open>k\<close> the one in the loop condition before attempt \<open>k\<close>),
  and \<open>getJobStatus k\<close> is what the \<open>k\<close>-th request gives, a rejection (\<open>Inl\<close>)
  or a status response. The result carries the delays handed to
  \<^verbatim>\<open>setTimeout\<close>, in order. Numbers are rationals: the intervals of the
  default options are exact in binary floating point. A loop that never ends
  has the value \<open>None\<close>. The observer callback \<^verbatim>\<open>onPoll\<close> is left out.
\<close>

partial_function (option) pollLoop ::
  "(nat \<Rightarrow> int) \<Rightarrow> (nat \<Rightarrow> chat_error + job_status_response) \<Rightarrow> int \<Rightarrow> rat \<Rightarrow> rat \<Rightarrow>
   nat \<Rightarrow> rat \<Rightarrow> rat list \<Rightarrow> ((chat_error + job_status_response) \<times> rat list) option" where
  "pollLoop clock getJobStatus startTime timeout maxInterval attempt interval slept =
     (if of_int (clock (attempt + 1) - startTime) < timeout then
        (case getJobStatus (attempt + 1) of
           Inl rejected \<Rightarrow> Some (Inl rejected, slept)
         | Inr status \<Rightarrow>
             if js_status status = Finished then Some (Inr status, slept)
             else if js_status status = Failed then
               Some (Inl (ChatError
                     (if truthy (js_error status) then the (js_error status)
                      else ''Job processing failed'')
                     (Some ''JOB_FAILED'')), slept)
             else if js_status status = Not_found then
               Some (Inl (ChatError ''Job not found. It may have expired.''
                     (Some ''JOB_NOT_FOUND'')), slept)
             else pollLoop clock getJobStatus startTime timeout maxInterval (attempt + 1)
                    (min (interval * (3 / 2)) maxInterval) (slept @ [interval]))
      else Some (Inl (ChatError ''Job polling timed out. Please try again.''
                  (Some ''POLL_TIMEOUT'')), slept))"

text \<open>
  The destructuring defaults
  \<^verbatim>\<open>{ initialInterval = 500, maxInterval = 3000, timeout = 120000 } = options\<close>.
\<close>

definition the_initialInterval :: "poll_options \<Rightarrow> rat" where
  "the_initialInterval options = (case opt_initialInterval options of None \<Rightarrow> 500 | Some v \<Rightarrow> v)"

definition the_maxInterval :: "poll_options \<Rightarrow> rat" where
  "the_maxInterval options = (case opt_maxInterval options of None \<Rightarrow> 3000 | Some v \<Rightarrow> v)"

definition the_timeout :: "poll_options \<Rightarrow> rat" where
  "the_timeout options = (case opt_timeout options of None \<Rightarrow> 120000 | Some v \<Rightarrow> v)"

definition pollJobUntilComplete ::
  "(nat \<Rightarrow> int) \<Rightarrow> (string \<Rightarrow> nat \<Rightarrow> chat_error + job_status_response) \<Rightarrow> string \<Rightarrow>
   poll_options \<Rightarrow> ((chat_error + job_status_response) \<times> rat list) option" where
  "pollJobUntilComplete clock getJobStatus jobId options =
     (let initialInterval = the_initialInterval options;
          maxInterval = the_maxInterval options;
          timeout = the_timeout options;
          startTime = clock 0
      in pollLoop clock (getJobStatus jobId) startTime timeout maxInterval 0 initialInterval [])"

section \<open>Ranged upload\<close>

datatype ingest_status = Success | ErrorStatus

record ingest_document_response =
  ir_status :: ingest_status
  ir_filename :: string
  ir_document_type :: string
  ir_total_pages :: int
  ir_chunks_total :: int
  ir_chunks_ingested :: int
  ir_user_id :: string
  ir_error :: "string option"

record upload_file =
  file_name :: string
  file_size :: int
  file_type :: string

record chunk =
  chunk_start :: int
  chunk_end :: int

text \<open>
  A range request: the \<^verbatim>\<open>upload_id\<close> parameter and the numbers of the header
  \<^verbatim>\<open>Content-Range: bytes start-end/total\<close>.
\<close>

record range_request =
  rq_upload_id :: string
  rq_start :: int
  rq_end :: int
  rq_total :: int

record ingest_options =
  opt_chunkSize :: "int option"
  opt_concurrency :: "int option"
  opt_uploadId :: "string option"

datatype upload_error = RequestFailed chat_error | PlainError string

text \<open>
  The first loop of \<open>ingestRange\<close>, with \<open>totalBytes\<close> for the variable \<^verbatim>\<open>total\<close>:
  \<^verbatim>\<open>for (let start = 0; start < total; start += chunkSize)\<close>. With a chunk size
  that is not positive it never ends, which is the value \<open>None\<close>.
\<close>

partial_function (option) mkChunks :: "int \<Rightarrow> int \<Rightarrow> int \<Rightarrow> chunk list \<Rightarrow> chunk list option" where
  "mkChunks start totalBytes chunkSize chunks =
     (if start < totalBytes then
        mkChunks (start + chunkSize) totalBytes chunkSize
          (chunks @ [\<lparr>chunk_start = start, chunk_end = min (start + chunkSize) totalBytes - 1\<rparr>])
      else Some chunks)"

definition range_request_of :: "string \<Rightarrow> int \<Rightarrow> chunk \<Rightarrow> range_request" where
  "range_request_of uploadId totalBytes c =
     \<lparr>rq_upload_id = uploadId, rq_start = chunk_start c, rq_end = chunk_end c, rq_total = totalBytes\<rparr>"

text \<open>
  What the completion of one range request does to \<^verbatim>\<open>finalResponse\<close>: it is
  overwritten only by the data of the range that ends at the last byte, and only
  if that data reports success. The response body may be missing
  (\<^verbatim>\<open>resp.data?.status\<close>).
\<close>

definition note_response ::
  "int \<Rightarrow> chunk \<Rightarrow> ingest_document_response option \<Rightarrow> ingest_document_response option \<Rightarrow>
   ingest_document_response option" where
  "note_response totalBytes c data finalResponse =
     (case data of
        None \<Rightarrow> finalResponse
      | Some d \<Rightarrow>
          if chunk_end c + 1 = totalBytes \<and> ir_status d = Success then Some d else finalResponse)"

fun first_rejection :: "('e + 'a) list \<Rightarrow> 'e option" where
  "first_rejection [] = None"
| "first_rejection (Inl e # rs) = Some e"
| "first_rejection (Inr _ # rs) = first_rejection rs"

fun fulfilled :: "('e + 'a option) \<Rightarrow> 'a option" where
  "fulfilled (Inl _) = None"
| "fulfilled (Inr d) = d"

text \<open>
  The second loop: batches of \<open>concurrency\<close> chunks, all requests of a batch
  issued together and awaited with \<^verbatim>\<open>Promise.all\<close>. \<open>post\<close> is the backend: a
  rejection or the response data for a request. A rejection in a batch ends the
  upload with that error (when several requests of one batch are rejected the
  model reports the first in chunk order; in the source it is the first in
  time). The result carries the requests issued. The progress callback is left
  out.
\<close>

partial_function (option) uploadBatches ::
  "(range_request \<Rightarrow> chat_error + ingest_document_response option) \<Rightarrow> string \<Rightarrow> int \<Rightarrow> nat \<Rightarrow>
   chunk list \<Rightarrow> nat \<Rightarrow> ingest_document_response option \<Rightarrow> range_request list \<Rightarrow>
   ((upload_error + ingest_document_response) \<times> range_request list) option" where
  "uploadBatches post uploadId totalBytes concurrency chunks i finalResponse sent =
     (if i < length chunks then
        (let batch = take concurrency (drop i chunks);
             requests = map (range_request_of uploadId totalBytes) batch
         in case first_rejection (map post requests) of
              Some rejected \<Rightarrow> Some (Inl (RequestFailed rejected), sent @ requests)
            | None \<Rightarrow>
                uploadBatches post uploadId totalBytes concurrency chunks (i + concurrency)
                  (fold (\<lambda>c. note_response totalBytes c
                                (fulfilled (post (range_request_of uploadId totalBytes c))))
                     batch finalResponse)
                  (sent @ requests))
      else (case finalResponse of
              None \<Rightarrow> Some (Inl (PlainError
                        ''Upload did not complete. No final response received.''), sent)
            | Some r \<Rightarrow> Some (Inr r, sent)))"

text \<open>
  \<open>ingestRange\<close>. \<open>generated\<close> is the upload id the template string
  \<^verbatim>\<open>`${file.name}-${Date.now()}-${Math.random()...}`\<close> evaluates to; it is used
  when the options give none.
\<close>

definition the_chunkSize :: "ingest_options \<Rightarrow> int" where
  "the_chunkSize options = (case opt_chunkSize options of None \<Rightarrow> 5 * 1024 * 1024 | Some v \<Rightarrow> v)"

definition the_concurrency :: "ingest_options \<Rightarrow> int" where
  "the_concurrency options =
     max 1 (min (case opt_concurrency options of None \<Rightarrow> 4 | Some v \<Rightarrow> v) 8)"

definition the_uploadId :: "string \<Rightarrow> ingest_options \<Rightarrow> string" where
  "the_uploadId generated options =
     (case opt_uploadId options of None \<Rightarrow> generated | Some v \<Rightarrow> v)"

definition ingestRange ::
  "(range_request \<Rightarrow> chat_error + ingest_document_response option) \<Rightarrow> string \<Rightarrow> upload_file \<Rightarrow>
   ingest_options \<Rightarrow> ((upload_error + ingest_document_response) \<times> range_request list) option" where
  "ingestRange post generated f options =
     (let chunkSize = the_chunkSize options;
          concurrency = the_concurrency options;
          uploadId = the_uploadId generated options;
          totalBytes = file_size f
      in case mkChunks 0 totalBytes chunkSize [] of
           None \<Rightarrow> None
         | Some chunks \<Rightarrow>
             uploadBatches post uploadId totalBytes (nat concurrency) chunks 0 None [])"

text \<open>
  The partition as the specification words it: range \<open>i\<close> has the inclusive
  bounds \<open>[i * C, min ((i + 1) * C) S - 1]\<close>, and there are \<open>ceil (S / C)\<close> ranges.
  These two are compared with what \<open>mkChunks\<close> computes.
\<close>

definition spec_range :: "int \<Rightarrow> int \<Rightarrow> nat \<Rightarrow> chunk" where
  "spec_range C S i = \<lparr>chunk_start = int i * C, chunk_end = min ((int i + 1) * C) S - 1\<rparr>"

definition spec_range_count :: "int \<Rightarrow> int \<Rightarrow> nat" where
  "spec_range_count C S = nat \<lceil>(of_int S :: rat) / of_int C\<rceil>"

section \<open>Concrete inputs\<close>

definition sample_conversation :: conversation where
  "sample_conversation =
     \<lparr>conv_id = ''c1'', conv_title = ''New Conversation'', conv_userId = ''alice'',
      conv_messages = [], conv_createdAt = 1000, conv_updatedAt = 1000\<rparr>"

definition sample_state :: chat_state where
  "sample_state = initialState\<lparr>conversations := [sample_conversation],
                               activeConversationId := Some ''c1''\<rparr>"

definition sample_user :: user_response where
  "sample_user =
     \<lparr>user_id = ''alice'', username = ''alice'', email = ''alice@example.org'',
      full_name = None, created_at = ''2024-01-01''\<rparr>"

definition sample_auth :: auth_store_state where
  "sample_auth =
     \<lparr>isAuthenticated = True, auth_user = Some sample_user,
      auth_token = Some ''tok'', auth_expiresAt = Some 100000,
      auth_isLoading = False, auth_isInitialized = True, auth_error = None\<rparr>"


definition other_conversation :: conversation where
  "other_conversation =
     \<lparr>conv_id = ''c2'', conv_title = ''Plans'', conv_userId = ''bob'',
      conv_messages = [], conv_createdAt = 1200, conv_updatedAt = 1200\<rparr>"

definition anonymous_conversation :: conversation where
  "anonymous_conversation =
     \<lparr>conv_id = ''c3'', conv_title = ''Notes'', conv_userId = ''anonymous'',
      conv_messages = [], conv_createdAt = 1300, conv_updatedAt = 1300\<rparr>"

definition sample_persisted :: chat_state where
  "sample_persisted =
     initialState\<lparr>conversations :=
                    [sample_conversation, other_conversation, anonymous_conversation],
                  activeConversationId := Some ''c2''\<rparr>"

definition other_user :: user_response where
  "other_user =
     \<lparr>user_id = ''bob'', username = ''bob'', email = ''bob@example.org'',
      full_name = None, created_at = ''2024-02-02''\<rparr>"

definition sample_token_response :: "user_response \<Rightarrow> token_response" where
  "sample_token_response u =
     \<lparr>access_token = ''tok2'', token_type = ''bearer'', expires_in = 3600, tr_user = u\<rparr>"

definition sample_storage :: local_storage where
  "sample_storage = [''rag-chat-storage'' \<mapsto> ''{conversations}'']"

definition sample_calls :: "add_call list" where
  "sample_calls =
     [\<lparr>call_messageId = ''m1'', call_now = 2000, call_conversationId = ''c1'',
       call_role = User, call_content = ''first question'', call_metadata = None\<rparr>,
      \<lparr>call_messageId = ''m2'', call_now = 2500, call_conversationId = ''c1'',
       call_role = Assistant, call_content = ''an answer'', call_metadata = None\<rparr>,
      \<lparr>call_messageId = ''m3'', call_now = 3000, call_conversationId = ''c1'',
       call_role = User, call_content = ''second question'', call_metadata = None\<rparr>]"

definition sample_ops1 :: "(int \<times> store_op) list" where
  "sample_ops1 = [(2000, AddMessage ''m1'' ''c1'' User ''hello'' None)]"

definition sample_ops2 :: "(int \<times> store_op) list" where
  "sample_ops2 = [(3000, UpdateConversationTitle ''c1'' ''Greeting''),
                  (3000, CreateConversation ''c9'' None),
                  (3500, DeleteMessage ''c1'' ''m1'')]"

text \<open>
  A clock that advances one second per reading, and a backend that reports
  \<open>started\<close> for the first \<open>n\<close> requests and \<open>finished\<close> afterwards.
\<close>

definition sample_clock :: "nat \<Rightarrow> int" where
  "sample_clock k = 1000 * int k"

definition sample_finished :: job_status_response where
  "sample_finished = \<lparr>js_status = Finished, js_result = Some ''answer'', js_error = None\<rparr>"

definition sample_backend :: "nat \<Rightarrow> string \<Rightarrow> nat \<Rightarrow> chat_error + job_status_response" where
  "sample_backend n jobId i =
     (if i \<le> n then Inr \<lparr>js_status = Started, js_result = None, js_error = None\<rparr>
      else Inr sample_finished)"

text \<open>Options of a caller who sets the timeout to a second and a half.\<close>

definition short_timeout_options :: poll_options where
  "short_timeout_options =
     \<lparr>opt_initialInterval = None, opt_maxInterval = None, opt_timeout = Some 1500\<rparr>"

text \<open>
  A 12 MiB file, default options, and a backend that answers every range with
  no final result except the range that ends at the last byte.
\<close>

definition sample_file :: upload_file where
  "sample_file = \<lparr>file_name = ''report.pdf'', file_size = 12582912,
                   file_type = ''application/pdf''\<rparr>"

definition sample_ingest_options :: ingest_options where
  "sample_ingest_options = \<lparr>opt_chunkSize = None, opt_concurrency = None, opt_uploadId = None\<rparr>"

definition sample_ingest_response :: ingest_document_response where
  "sample_ingest_response =
     \<lparr>ir_status = Success, ir_filename = ''report.pdf'', ir_document_type = ''pdf'',
      ir_total_pages = 40, ir_chunks_total = 120, ir_chunks_ingested = 120,
      ir_user_id = ''alice'', ir_error = None\<rparr>"

definition sample_post :: "range_request \<Rightarrow> chat_error + ingest_document_response option" where
  "sample_post rq =
     (if rq_end rq + 1 = rq_total rq then Inr (Some sample_ingest_response) else Inr None)"

text \<open>
  A backend that rejects the range ending at the last byte with the error of a
  lost connection, and a 10-byte file sent in ranges of 4 bytes, two at a time,
  under an upload id of the caller.
\<close>

definition sample_rejection :: chat_error where
  "sample_rejection =
     ChatError ''Unable to connect to server. Please check your connection.''
       (Some ''NETWORK_ERROR'')"

definition rejecting_post :: "range_request \<Rightarrow> chat_error + ingest_document_response option" where
  "rejecting_post rq =
     (if rq_end rq + 1 = rq_total rq then Inl sample_rejection else Inr None)"

definition small_file :: upload_file where
  "small_file = \<lparr>file_name = ''note.txt'', file_size = 10, file_type = ''text/plain''\<rparr>"

definition small_ingest_options :: ingest_options where
  "small_ingest_options =
     \<lparr>opt_chunkSize = Some 4, opt_concurrency = Some 2, opt_uploadId = Some ''u7''\<rparr>"

section \<open>Facts about the list helpers\<close>

lemma mutate_found_absent: "find p xs = None \<Longrightarrow> mutate_found p f xs = xs"
  by (induction xs) (auto split: if_splits)

lemma mutate_found_fixed: "find p xs = Some x \<Longrightarrow> f x = x \<Longrightarrow> mutate_found p f xs = xs"
  by (induction xs) (auto split: if_splits)

lemma length_mutate_found: "length (mutate_found p f xs) = length xs"
  by (induction xs) auto

lemma find_mutate_found_hit:
  "find p xs = Some x \<Longrightarrow> p (f x) \<Longrightarrow> find p (mutate_found p f xs) = Some (f x)"
  by (induction xs) (auto split: if_splits)

section \<open>Properties of the conversation store\<close>

text \<open>
  C10. The message that \<open>addMessage\<close> creates has status \<open>sent\<close> when the role is
  \<open>user\<close> and no status for the roles \<open>assistant\<close> and \<open>system\<close>; the metadata
  argument is stored as it is in the metadata field, and the status and the
  content are the same whatever the metadata is. The message is appended to the
  conversation found. With metadata \<open>{status: 'sending'}\<close> an assistant message
  still has no status.
\<close>

theorem addMessage_status_metadata:
  "msg_status (newMessage mid now role content md) = (if role = User then Some Sent else None)
   \<and> msg_metadata (newMessage mid now role content md) = md
   \<and> msg_content (newMessage mid now role content md) = content
   \<and> msg_status (newMessage mid now role content md) = msg_status (newMessage mid now role content md')
   \<and> msg_content (newMessage mid now role content md) = msg_content (newMessage mid now role content md')
   \<and> msg_status (newMessage mid now Assistant content (Some [(''status'', JsString ''sending'')])) = None
   \<and> (\<forall>c. find (\<lambda>c. conv_id c = cid) (conversations s) = Some c \<longrightarrow>
        (\<exists>c'. getConversation (snd (addMessage ex mid now cid role content md s)) cid = Some c'
           \<and> conv_messages c' = conv_messages c @ [newMessage mid now role content md]))"
proof -
  have "\<exists>c'. getConversation (snd (addMessage ex mid now cid role content md s)) cid = Some c'
           \<and> conv_messages c' = conv_messages c @ [newMessage mid now role content md]"
    if h: "find (\<lambda>c. conv_id c = cid) (conversations s) = Some c" for c
  proof -
    let ?f = "addMessage_conversation ex now role content (newMessage mid now role content md)"
    have idc: "conv_id c = cid"
      using h by (auto simp: find_Some_iff)
    have keep: "conv_id (?f c) = cid"
      using idc by (simp add: addMessage_conversation_def Let_def)
    have "find (\<lambda>c. conv_id c = cid) (mutate_found (\<lambda>c. conv_id c = cid) ?f (conversations s))
          = Some (?f c)"
      using h keep by (rule find_mutate_found_hit)
    moreover have "conv_messages (?f c) = conv_messages c @ [newMessage mid now role content md]"
      by (simp add: addMessage_conversation_def Let_def)
    ultimately show ?thesis
      by (simp add: getConversation_def addMessage_def)
  qed
  then show ?thesis
    by (simp add: newMessage_def)
qed

theorem addMessage_status_metadata_witness:
  "find (\<lambda>c. conv_id c = ''c1'') (conversations sample_state) = Some sample_conversation
   \<and> (\<exists>c'. getConversation
              (snd (addMessage (\<lambda>t. t) ''m1'' 2000 ''c1'' Assistant ''''
                      (Some [(''status'', JsString ''sending'')]) sample_state)) ''c1'' = Some c'
         \<and> conv_messages c' =
             [\<lparr>msg_id = ''m1'', msg_role = Assistant, msg_content = '''', msg_timestamp = 2000,
               msg_status = None,
               msg_metadata = Some [(''status'', JsString ''sending'')]\<rparr>])"
proof -
  have h: "find (\<lambda>c. conv_id c = ''c1'') (conversations sample_state) = Some sample_conversation"
    by (simp add: sample_state_def sample_conversation_def)
  have m: "conv_messages sample_conversation = []"
    by (simp add: sample_conversation_def)
  from addMessage_status_metadata
         [where cid = "''c1''" and s = sample_state and mid = "''m1''" and now = 2000
            and role = Assistant and content = "''''"
            and md = "Some [(''status'', JsString ''sending'')]" and ex = "\<lambda>t. t"]
  have "\<exists>c'. getConversation
              (snd (addMessage (\<lambda>t. t) ''m1'' 2000 ''c1'' Assistant ''''
                      (Some [(''status'', JsString ''sending'')]) sample_state)) ''c1'' = Some c'
         \<and> conv_messages c' = conv_messages sample_conversation
              @ [newMessage ''m1'' 2000 Assistant '''' (Some [(''status'', JsString ''sending'')])]"
    using h by blast
  then show ?thesis
    using h m by (simp add: newMessage_def)
qed

text \<open>
  C7. \<open>isTokenExpired\<close> is true if and only if there is no token (none, or the
  empty string), or no stored expiry (none, or 0), or the clock reading
  satisfies \<open>now \<ge> expiresAt - 30000\<close>. With a token and an expiry it is true at
  the boundary \<open>now = expiresAt - 30000\<close> and false strictly below it.
\<close>

theorem isTokenExpired_iff:
  "(isTokenExpired now st \<longleftrightarrow>
      auth_token st = None \<or> auth_token st = Some [] \<or>
      auth_expiresAt st = None \<or> auth_expiresAt st = Some 0 \<or>
      (\<exists>e. auth_expiresAt st = Some e \<and> of_int now \<ge> e - 30000))
   \<and> (\<forall>t e. auth_token st = Some t \<and> t \<noteq> [] \<and> auth_expiresAt st = Some e \<and> e \<noteq> 0 \<longrightarrow>
        (isTokenExpired now st \<longleftrightarrow> of_int now \<ge> e - 30000)
        \<and> (of_int now = e - 30000 \<longrightarrow> isTokenExpired now st)
        \<and> (of_int now < e - 30000 \<longrightarrow> \<not> isTokenExpired now st))"
  by (auto simp: isTokenExpired_def truthy_def truthy_num_def split: option.splits)

theorem isTokenExpired_iff_witness:
  "auth_token sample_auth = Some ''tok'' \<and> ''tok'' \<noteq> [] \<and>
   auth_expiresAt sample_auth = Some 100000 \<and> (100000::rat) \<noteq> 0 \<and>
   isTokenExpired 70000 sample_auth \<and> \<not> isTokenExpired 69999 sample_auth"
proof -
  have h: "auth_token sample_auth = Some ''tok'' \<and> ''tok'' \<noteq> [] \<and>
           auth_expiresAt sample_auth = Some 100000 \<and> (100000::rat) \<noteq> 0"
    by (simp add: sample_auth_def)
  have a: "isTokenExpired 70000 sample_auth"
    using isTokenExpired_iff [of 70000 sample_auth] h by simp
  have b: "\<not> isTokenExpired 69999 sample_auth"
    using isTokenExpired_iff [of 69999 sample_auth] h by simp
  show ?thesis using h a b by simp
qed

text \<open>
  \<open>updateMessage\<close>, \<open>updateMessageStatus\<close> and \<open>deleteMessage\<close> with a conversation
  id that no conversation has, or with a message id that no message of the
  conversation found has, return the store state they were given, and so does
  \<open>updatePendingJob\<close> with a job id under which the lookup gives \<^verbatim>\<open>undefined\<close>.
  The actions are total functions with no error result: the source has no
  \<^verbatim>\<open>throw\<close> in them.
\<close>

lemma absent_id_noop:
  "(find (\<lambda>c. conv_id c = cid) (conversations s) = None \<longrightarrow>
      updateMessage now cid mid u s = s \<and> updateMessageStatus now cid mid status s = s
      \<and> deleteMessage now cid mid s = s)
   \<and> (\<forall>c. find (\<lambda>c. conv_id c = cid) (conversations s) = Some c
           \<and> find (\<lambda>m. msg_id m = mid) (conv_messages c) = None \<longrightarrow>
      updateMessage now cid mid u s = s \<and> updateMessageStatus now cid mid status s = s
      \<and> deleteMessage now cid mid s = s)
   \<and> (js_get (pendingJobs s) jid = Undefined \<longrightarrow> updatePendingJob jid ju s = (s, None))"
  by (auto simp: updateMessage_def updateMessageStatus_def deleteMessage_def
        updatePendingJob_def mutate_found_absent mutate_found_fixed)


lemma onRehydrateStorage_Some:
  "onRehydrateStorage a (Some s) =
     (let kept = (if truthy (map_option user_id (auth_user a))
                  then filter (\<lambda>conv. Some (conv_userId conv) = map_option user_id (auth_user a)
                                       \<or> conv_userId conv = ''anonymous'') (conversations s)
                  else [])
      in Some (s\<lparr>conversations := kept,
                activeConversationId :=
                  (if truthy (activeConversationId s)
                      \<and> find (\<lambda>c. Some (conv_id c) = activeConversationId s) kept = None
                   then None else activeConversationId s)\<rparr>))"
  by (simp add: onRehydrateStorage_def Let_def split: option.splits)

text \<open>
  C3. Rehydration of a persisted chat record keeps exactly the conversations
  whose \<open>userId\<close> is the id of the signed-in user or \<open>anonymous\<close>; with no
  signed-in user (or a user whose id is the empty string) it keeps none. The
  active conversation id becomes \<open>null\<close> when no kept conversation has it (an
  active id that is the empty string is falsy and stays as it is). After
  \<open>logout\<close> the conversation list is empty and the active id is \<open>null\<close>. All
  other fields of the record are as they were.
\<close>

theorem rehydrate_filters_by_owner:
  "\<exists>s'. onRehydrateStorage a (Some s) = Some s'
     \<and> (\<forall>u. auth_user a = Some u \<and> user_id u \<noteq> [] \<longrightarrow>
          conversations s' =
            filter (\<lambda>c. conv_userId c = user_id u \<or> conv_userId c = ''anonymous'')
              (conversations s))
     \<and> (auth_user a = None \<longrightarrow> conversations s' = [])
     \<and> (\<forall>u. auth_user a = Some u \<and> user_id u = [] \<longrightarrow> conversations s' = [])
     \<and> (activeConversationId s \<noteq> Some [] \<longrightarrow>
          activeConversationId s' =
            (if \<exists>c \<in> set (conversations s'). Some (conv_id c) = activeConversationId s
             then activeConversationId s else None))
     \<and> (activeConversationId s = Some [] \<longrightarrow> activeConversationId s' = Some [])
     \<and> (auth_user a = None \<and> activeConversationId s \<noteq> Some [] \<longrightarrow>
          conversations s' = [] \<and> activeConversationId s' = None)
     \<and> (\<forall>w. a = fst (logout w) \<and> activeConversationId s \<noteq> Some [] \<longrightarrow>
          conversations s' = [] \<and> activeConversationId s' = None)
     \<and> s' = s\<lparr>conversations := conversations s',
                activeConversationId := activeConversationId s'\<rparr>"
proof -
  define kept where
    "kept = (if truthy (map_option user_id (auth_user a))
             then filter (\<lambda>conv. Some (conv_userId conv) = map_option user_id (auth_user a)
                                  \<or> conv_userId conv = ''anonymous'') (conversations s)
             else [])"
  define act where
    "act = (if truthy (activeConversationId s)
               \<and> find (\<lambda>c. Some (conv_id c) = activeConversationId s) kept = None
            then None else activeConversationId s)"
  define s' where "s' = s\<lparr>conversations := kept, activeConversationId := act\<rparr>"
  have sel: "conversations s' = kept" "activeConversationId s' = act"
    by (simp_all add: s'_def)
  have r: "onRehydrateStorage a (Some s) = Some s'"
    unfolding s'_def act_def kept_def using onRehydrateStorage_Some [of a s]
    by (simp only: Let_def)
  have k1: "\<forall>u. auth_user a = Some u \<and> user_id u \<noteq> [] \<longrightarrow>
              conversations s' =
                filter (\<lambda>c. conv_userId c = user_id u \<or> conv_userId c = ''anonymous'')
                  (conversations s)"
    by (simp add: sel kept_def truthy_def)
  have k2: "auth_user a = None \<longrightarrow> conversations s' = []"
    by (simp add: sel kept_def truthy_def)
  have k3: "\<forall>u. auth_user a = Some u \<and> user_id u = [] \<longrightarrow> conversations s' = []"
    by (simp add: sel kept_def truthy_def)
  have a1: "activeConversationId s \<noteq> Some [] \<longrightarrow>
            activeConversationId s' =
            (if \<exists>c \<in> set (conversations s'). Some (conv_id c) = activeConversationId s
             then activeConversationId s else None)"
  proof (cases "activeConversationId s")
    case None
    then show ?thesis by (simp add: sel act_def truthy_def)
  next
    case (Some i)
    then show ?thesis
      by (auto simp: sel act_def truthy_def find_None_iff)
  qed
  have a2: "activeConversationId s = Some [] \<longrightarrow> activeConversationId s' = Some []"
    by (simp add: sel act_def truthy_def)
  have a3: "auth_user a = None \<and> activeConversationId s \<noteq> Some [] \<longrightarrow>
            conversations s' = [] \<and> activeConversationId s' = None"
    using a1 k2 by simp
  have e: "s' = s\<lparr>conversations := conversations s',
                   activeConversationId := activeConversationId s'\<rparr>"
    by (simp add: s'_def)
  have a4: "\<forall>w. a = fst (logout w) \<and> activeConversationId s \<noteq> Some [] \<longrightarrow>
            conversations s' = [] \<and> activeConversationId s' = None"
    using a3 by (auto simp: logout_def Let_def)
  from r k1 k2 k3 a1 a2 a3 a4 e show ?thesis
    by (intro exI [of _ s']) (intro conjI)
qed

theorem rehydrate_filters_by_owner_witness:
  "auth_user sample_auth = Some sample_user \<and> user_id sample_user \<noteq> []
   \<and> activeConversationId sample_persisted \<noteq> Some []
   \<and> (\<exists>s'. onRehydrateStorage sample_auth (Some sample_persisted) = Some s'
         \<and> conversations s' = [sample_conversation, anonymous_conversation]
         \<and> activeConversationId s' = None)
   \<and> (\<exists>s'. onRehydrateStorage (fst (logout (sample_auth, sample_storage)))
               (Some sample_persisted) = Some s'
         \<and> conversations s' = [] \<and> activeConversationId s' = None)"
proof -
  have h: "auth_user sample_auth = Some sample_user \<and> user_id sample_user \<noteq> []"
    by (simp add: sample_auth_def sample_user_def)
  have g: "activeConversationId sample_persisted \<noteq> Some []"
    by (simp add: sample_persisted_def)
  have f: "filter (\<lambda>c. conv_userId c = user_id sample_user \<or> conv_userId c = ''anonymous'')
             (conversations sample_persisted) = [sample_conversation, anonymous_conversation]"
    by (simp add: sample_persisted_def sample_conversation_def other_conversation_def
          anonymous_conversation_def sample_user_def)
  have n: "\<not> (\<exists>c \<in> set [sample_conversation, anonymous_conversation].
               Some (conv_id c) = activeConversationId sample_persisted)"
    by (simp add: sample_persisted_def sample_conversation_def anonymous_conversation_def)
  obtain s' where s': "onRehydrateStorage sample_auth (Some sample_persisted) = Some s'"
    "conversations s' =
       filter (\<lambda>c. conv_userId c = user_id sample_user \<or> conv_userId c = ''anonymous'')
         (conversations sample_persisted)"
    "activeConversationId s' =
       (if \<exists>c \<in> set (conversations s'). Some (conv_id c) = activeConversationId sample_persisted
        then activeConversationId sample_persisted else None)"
    using rehydrate_filters_by_owner [of sample_auth sample_persisted] h g by blast
  have one: "\<exists>s'. onRehydrateStorage sample_auth (Some sample_persisted) = Some s'
         \<and> conversations s' = [sample_conversation, anonymous_conversation]
         \<and> activeConversationId s' = None"
    using s' f n by simp
  obtain s'' where s'': "onRehydrateStorage (fst (logout (sample_auth, sample_storage)))
               (Some sample_persisted) = Some s''"
    "conversations s'' = [] \<and> activeConversationId s'' = None"
    using rehydrate_filters_by_owner
            [of "fst (logout (sample_auth, sample_storage))" sample_persisted] g
    by blast
  show ?thesis
    using h g one s'' by blast
qed

text \<open>
  C4. \<open>login\<close> leaves two worlds behind, in this order: first the world after
  the storage step, in which the auth state is still the previous one, then the
  world after \<^verbatim>\<open>set\<close>, which has the user, token and expiry of the response and
  the storage of the first. When a user with a non-empty id was signed in and
  the id of the response differs, the first world has lost the key
  \<open>rag-chat-storage\<close>. When no user was signed in, or the ids are equal, the
  storage is as it was in both worlds (and also when the previous id is the
  empty string, which the guard takes for no user).
\<close>

theorem login_purges_on_identity_change:
  "\<exists>purged adopted.
     login_steps dbl now r w = [purged, adopted]
     \<and> login dbl now r w = adopted
     \<and> fst purged = fst w
     \<and> snd adopted = snd purged
     \<and> auth_user (fst adopted) = Some (tr_user r)
     \<and> auth_token (fst adopted) = Some (access_token r)
     \<and> auth_expiresAt (fst adopted) = Some (dbl (of_int now + dbl (expires_in r * 1000)))
     \<and> (\<forall>u. auth_user (fst w) = Some u \<and> user_id u \<noteq> []
              \<and> user_id u \<noteq> user_id (tr_user r) \<longrightarrow>
          snd purged = (snd w)(''rag-chat-storage'' := None)
          \<and> snd (login dbl now r w) ''rag-chat-storage'' = None)
     \<and> (auth_user (fst w) = None
          \<or> (\<exists>u. auth_user (fst w) = Some u \<and> user_id u = user_id (tr_user r)) \<longrightarrow>
          snd purged = snd w \<and> snd (login dbl now r w) = snd w)
     \<and> (\<forall>u. auth_user (fst w) = Some u \<and> user_id u = [] \<longrightarrow>
          snd purged = snd w \<and> snd (login dbl now r w) = snd w)"
proof -
  define expiresAt where "expiresAt = dbl (of_int now + dbl (expires_in r * 1000))"
  define purged where "purged = login_purge r w"
  define adopted where "adopted = login_adopt expiresAt r purged"
  have steps: "login_steps dbl now r w = [purged, adopted]"
    by (simp add: login_steps_def Let_def expiresAt_def purged_def adopted_def)
  have result: "login dbl now r w = adopted"
    by (simp add: login_def steps)
  have old: "fst purged = fst w"
    by (simp add: purged_def login_purge_def Let_def)
  have same: "snd adopted = snd purged"
    by (simp add: adopted_def login_adopt_def)
  have new: "auth_user (fst adopted) = Some (tr_user r)"
    "auth_token (fst adopted) = Some (access_token r)"
    "auth_expiresAt (fst adopted) = Some (dbl (of_int now + dbl (expires_in r * 1000)))"
    by (simp_all add: adopted_def login_adopt_def expiresAt_def)
  have differs: "\<forall>u. auth_user (fst w) = Some u \<and> user_id u \<noteq> []
              \<and> user_id u \<noteq> user_id (tr_user r) \<longrightarrow>
          snd purged = (snd w)(''rag-chat-storage'' := None)
          \<and> snd (login dbl now r w) ''rag-chat-storage'' = None"
    unfolding result same by (auto simp: purged_def login_purge_def Let_def truthy_def)
  have equal: "auth_user (fst w) = None
          \<or> (\<exists>u. auth_user (fst w) = Some u \<and> user_id u = user_id (tr_user r)) \<longrightarrow>
          snd purged = snd w \<and> snd (login dbl now r w) = snd w"
    unfolding result same by (auto simp: purged_def login_purge_def Let_def truthy_def)
  have empty: "\<forall>u. auth_user (fst w) = Some u \<and> user_id u = [] \<longrightarrow>
          snd purged = snd w \<and> snd (login dbl now r w) = snd w"
    unfolding result same by (auto simp: purged_def login_purge_def Let_def truthy_def)
  from steps result old same new differs equal empty show ?thesis
    by (intro exI [of _ purged] exI [of _ adopted]) (intro conjI)
qed

theorem login_purges_on_identity_change_witness:
  "auth_user (fst (sample_auth, sample_storage)) = Some sample_user
   \<and> user_id sample_user \<noteq> []
   \<and> user_id sample_user \<noteq> user_id (tr_user (sample_token_response other_user))
   \<and> sample_storage ''rag-chat-storage'' = Some ''{conversations}''
   \<and> (\<exists>purged adopted.
         login_steps id 5000 (sample_token_response other_user) (sample_auth, sample_storage)
           = [purged, adopted]
         \<and> auth_user (fst purged) = Some sample_user
         \<and> snd purged ''rag-chat-storage'' = None
         \<and> auth_user (fst adopted) = Some other_user
         \<and> snd adopted ''rag-chat-storage'' = None)
   \<and> snd (login id 5000 (sample_token_response other_user) (sample_auth, sample_storage))
        ''rag-chat-storage'' = None
   \<and> user_id sample_user = user_id (tr_user (sample_token_response sample_user))
   \<and> snd (login id 5000 (sample_token_response sample_user) (sample_auth, sample_storage))
        = sample_storage
   \<and> snd (login id 5000 (sample_token_response other_user)
             (sample_auth\<lparr>auth_user := None\<rparr>, sample_storage))
        = sample_storage
   \<and> snd (login id 5000 (sample_token_response other_user)
             (sample_auth\<lparr>auth_user := Some (sample_user\<lparr>user_id := []\<rparr>)\<rparr>, sample_storage))
        = sample_storage"
proof -
  have h: "auth_user (fst (sample_auth, sample_storage)) = Some sample_user
           \<and> user_id sample_user \<noteq> []
           \<and> user_id sample_user \<noteq> user_id (tr_user (sample_token_response other_user))"
    by (simp add: sample_auth_def sample_user_def other_user_def sample_token_response_def)
  have k: "auth_user (fst (sample_auth, sample_storage)) = Some sample_user
           \<and> user_id sample_user = user_id (tr_user (sample_token_response sample_user))"
    by (simp add: sample_auth_def sample_token_response_def)
  have s: "sample_storage ''rag-chat-storage'' = Some ''{conversations}''"
    by (simp add: sample_storage_def)
  have t: "tr_user (sample_token_response other_user) = other_user"
    by (simp add: sample_token_response_def)
  obtain purged adopted where
    st: "login_steps id 5000 (sample_token_response other_user) (sample_auth, sample_storage)
           = [purged, adopted]"
    and res: "login id 5000 (sample_token_response other_user) (sample_auth, sample_storage)
           = adopted"
    and old: "fst purged = fst (sample_auth, sample_storage)"
    and same: "snd adopted = snd purged"
    and new: "auth_user (fst adopted) = Some (tr_user (sample_token_response other_user))"
    and gone: "snd purged = (snd (sample_auth, sample_storage))(''rag-chat-storage'' := None)"
    using login_purges_on_identity_change
            [of id 5000 "sample_token_response other_user" "(sample_auth, sample_storage)"] h
    by blast
  have a: "\<exists>purged adopted.
         login_steps id 5000 (sample_token_response other_user) (sample_auth, sample_storage)
           = [purged, adopted]
         \<and> auth_user (fst purged) = Some sample_user
         \<and> snd purged ''rag-chat-storage'' = None
         \<and> auth_user (fst adopted) = Some other_user
         \<and> snd adopted ''rag-chat-storage'' = None"
    using st old same new gone h t by (intro exI [of _ purged] exI [of _ adopted]) simp
  have a': "snd (login id 5000 (sample_token_response other_user) (sample_auth, sample_storage))
             ''rag-chat-storage'' = None"
    using res same gone by simp
  have b: "snd (login id 5000 (sample_token_response sample_user) (sample_auth, sample_storage))
             = sample_storage"
    using login_purges_on_identity_change
            [of id 5000 "sample_token_response sample_user" "(sample_auth, sample_storage)"] k
    by auto
  have n: "auth_user (fst (sample_auth\<lparr>auth_user := None\<rparr>, sample_storage)) = None"
    by simp
  have c: "snd (login id 5000 (sample_token_response other_user)
                  (sample_auth\<lparr>auth_user := None\<rparr>, sample_storage))
             = sample_storage"
    using login_purges_on_identity_change
            [of id 5000 "sample_token_response other_user"
                "(sample_auth\<lparr>auth_user := None\<rparr>, sample_storage)"] n
    by auto
  have e: "auth_user (fst (sample_auth\<lparr>auth_user := Some (sample_user\<lparr>user_id := []\<rparr>)\<rparr>,
                           sample_storage))
             = Some (sample_user\<lparr>user_id := []\<rparr>)
           \<and> user_id (sample_user\<lparr>user_id := []\<rparr>) = []"
    by simp
  have d: "snd (login id 5000 (sample_token_response other_user)
                  (sample_auth\<lparr>auth_user := Some (sample_user\<lparr>user_id := []\<rparr>)\<rparr>,
                   sample_storage))
             = sample_storage"
    using login_purges_on_identity_change
            [of id 5000 "sample_token_response other_user"
                "(sample_auth\<lparr>auth_user := Some (sample_user\<lparr>user_id := []\<rparr>)\<rparr>,
                  sample_storage)"] e
    by auto
  show ?thesis
    using h k s a a' b c d by simp
qed

section \<open>Title derivation\<close>

lemma find_mutate_found_miss:
  "(\<And>x. q x \<Longrightarrow> \<not> p x \<and> \<not> p (f x)) \<Longrightarrow> find p (mutate_found q f xs) = find p xs"
  by (induction xs) auto

lemma addMessage_conversation_id:
  "conv_id (addMessage_conversation ex now role content m c) = conv_id c"
  by (simp add: addMessage_conversation_def Let_def)

lemma addMessage_conversation_title:
  "conv_title (addMessage_conversation ex now role content (newMessage mid now role content md) c) =
     (if role = User \<and> filter (\<lambda>m. msg_role m = User) (conv_messages c) = []
      then ex content else conv_title c)"
  by (simp add: addMessage_conversation_def newMessage_def Let_def)

lemma addMessage_conversation_users:
  "filter (\<lambda>m. msg_role m = User)
     (conv_messages (addMessage_conversation ex now role content
                       (newMessage mid now role content md) c)) =
   filter (\<lambda>m. msg_role m = User) (conv_messages c)
     @ (if role = User then [newMessage mid now role content md] else [])"
  by (simp add: addMessage_conversation_def newMessage_def Let_def)

lemma getConversation_addMessage:
  assumes "getConversation s cid = Some c"
  shows "getConversation (snd (addMessage ex mid now cid' role content md s)) cid =
           Some (if cid' = cid
                 then addMessage_conversation ex now role content
                        (newMessage mid now role content md) c
                 else c)"
proof (cases "cid' = cid")
  case True
  have "conv_id c = cid"
    using assms by (auto simp: getConversation_def find_Some_iff)
  then have "conv_id (addMessage_conversation ex now role content
                        (newMessage mid now role content md) c) = cid"
    by (simp add: addMessage_conversation_id)
  with assms True show ?thesis
    by (simp add: getConversation_def addMessage_def find_mutate_found_hit)
next
  case False
  then have "find (\<lambda>c. conv_id c = cid)
               (mutate_found (\<lambda>c. conv_id c = cid')
                  (addMessage_conversation ex now role content
                     (newMessage mid now role content md)) (conversations s))
             = find (\<lambda>c. conv_id c = cid) (conversations s)"
    by (intro find_mutate_found_miss) (auto simp: addMessage_conversation_id)
  with assms False show ?thesis
    by (simp add: getConversation_def addMessage_def)
qed

text \<open>
  C6 (as amended). In a run of \<open>addMessage\<close> calls with no other store action in
  between, on a store that has a conversation with the id: if the conversation
  already holds a user-role message, its title stays as it is; if it holds
  none, the title after the run is the derived title of the content of the
  first user-role call to that conversation (and stays as it is when the run
  has no such call). So the first user-role message sets the title and no later
  call of the run, of any role, changes it.
\<close>

theorem addMessages_title_once:
  assumes "getConversation s cid = Some c"
  shows "\<exists>c'. getConversation (addMessages ex calls s) cid = Some c'
           \<and> conv_title c' =
               (if filter (\<lambda>m. msg_role m = User) (conv_messages c) \<noteq> [] then conv_title c
                else case find (\<lambda>k. call_conversationId k = cid \<and> call_role k = User) calls of
                       None \<Rightarrow> conv_title c
                     | Some k \<Rightarrow> ex (call_content k))"
  using assms
proof (induction calls arbitrary: s c)
  case Nil
  then show ?case by simp
next
  case (Cons k ks)
  let ?s1 = "snd (addMessage ex (call_messageId k) (call_now k) (call_conversationId k)
                    (call_role k) (call_content k) (call_metadata k) s)"
  let ?c1 = "if call_conversationId k = cid
             then addMessage_conversation ex (call_now k) (call_role k) (call_content k)
                    (newMessage (call_messageId k) (call_now k) (call_role k) (call_content k)
                       (call_metadata k)) c
             else c"
  have g: "getConversation ?s1 cid = Some ?c1"
    using Cons.prems by (rule getConversation_addMessage)
  from Cons.IH [OF g] obtain c' where
    c': "getConversation (addMessages ex ks ?s1) cid = Some c'"
        "conv_title c' =
           (if filter (\<lambda>m. msg_role m = User) (conv_messages ?c1) \<noteq> [] then conv_title ?c1
            else case find (\<lambda>k. call_conversationId k = cid \<and> call_role k = User) ks of
                   None \<Rightarrow> conv_title ?c1
                 | Some k \<Rightarrow> ex (call_content k))"
    by blast
  have "conv_title c' =
          (if filter (\<lambda>m. msg_role m = User) (conv_messages c) \<noteq> [] then conv_title c
           else case find (\<lambda>k. call_conversationId k = cid \<and> call_role k = User) (k # ks) of
                  None \<Rightarrow> conv_title c
                | Some k \<Rightarrow> ex (call_content k))"
    unfolding c'(2)
    by (simp add: addMessage_conversation_title addMessage_conversation_users
          split: option.splits)
  with c'(1) show ?case
    by simp
qed

theorem addMessages_title_once_witness:
  "getConversation sample_state ''c1'' = Some sample_conversation
   \<and> (\<exists>c'. getConversation (addMessages id sample_calls sample_state) ''c1'' = Some c'
          \<and> conv_title c' = ''first question'')"
proof -
  have h: "getConversation sample_state ''c1'' = Some sample_conversation"
    by (simp add: getConversation_def sample_state_def sample_conversation_def)
  have e: "filter (\<lambda>m. msg_role m = User) (conv_messages sample_conversation) = []"
    by (simp add: sample_conversation_def)
  have f: "find (\<lambda>k. call_conversationId k = ''c1'' \<and> call_role k = User) sample_calls
           = Some (hd sample_calls)"
    by (simp add: sample_calls_def)
  have g: "call_content (hd sample_calls) = ''first question''"
    by (simp add: sample_calls_def)
  from addMessages_title_once [OF h, of id sample_calls]
  show ?thesis
    using h e f g by simp
qed

text \<open>
  C6 (as stated) fails once \<open>deleteMessage\<close> comes between two \<open>addMessage\<close>
  calls: the first user-role message sets the title, the message is deleted,
  and the next user-role \<open>addMessage\<close> is again the only user-role message of
  the conversation, so the title is derived a second time.
\<close>

theorem addMessage_rederives_title_after_delete:
  "map_option conv_title
     (getConversation
        (snd (addMessage id ''m1'' 2000 ''c1'' User ''first question'' None sample_state))
        ''c1'') = Some ''first question''
   \<and> map_option conv_title
     (getConversation
        (snd (addMessage id ''m2'' 4000 ''c1'' User ''second question'' None
               (deleteMessage 3000 ''c1'' ''m1''
                  (snd (addMessage id ''m1'' 2000 ''c1'' User ''first question'' None
                          sample_state)))))
        ''c1'') = Some ''second question''"
  by (simp add: addMessage_def deleteMessage_def getConversation_def sample_state_def
        sample_conversation_def addMessage_conversation_def newMessage_def Let_def)

section \<open>The stamp \<open>updatedAt\<close>\<close>

lemma mutate_found_set: "c \<in> set (mutate_found p f xs) \<Longrightarrow> c \<in> set xs \<or> (\<exists>x \<in> set xs. c = f x)"
  by (induction xs) (auto split: if_splits)

lemma mutate_found_ids:
  "(\<And>c. conv_id (f c) = conv_id c) \<Longrightarrow> map conv_id (mutate_found p f cs) = map conv_id cs"
  by (induction cs) auto

lemma splice_found_set: "c \<in> set (splice_found p xs) \<Longrightarrow> c \<in> set xs"
  by (induction xs) (auto split: if_splits)

lemma splice_found_distinct:
  "distinct (map conv_id cs) \<Longrightarrow> distinct (map conv_id (splice_found p cs))"
  by (induction cs) (auto dest: splice_found_set)

text \<open>
  The shape of the conversation list after any action: one conversation
  mutated in place, one put in front, one removed, the list emptied, or the
  list as it was.
\<close>

lemma apply_op_shape:
  "(\<exists>p f. conversations (apply_op ex now op s) = mutate_found p f (conversations s)
          \<and> (\<forall>c. conv_id (f c) = conv_id c)
          \<and> (\<forall>c. f c = c \<or> conv_updatedAt (f c) = now))
   \<or> (\<exists>new. conversations (apply_op ex now op s) = new # conversations s
          \<and> conv_updatedAt new = now
          \<and> (creates_fresh_id op s \<longrightarrow> conv_id new \<notin> conv_id ` set (conversations s)))
   \<or> (\<exists>p. conversations (apply_op ex now op s) = splice_found p (conversations s))
   \<or> conversations (apply_op ex now op s) = []
   \<or> conversations (apply_op ex now op s) = conversations s"
proof (cases op)
  case (CreateConversation ident authUser)
  then show ?thesis
    by (simp add: createConversation_def Let_def)
next
  case (DeleteConversation ident)
  have "conversations (apply_op ex now op s)
        = splice_found (\<lambda>c. conv_id c = ident) (conversations s)"
    by (simp add: DeleteConversation deleteConversation_def Let_def)
  then show ?thesis by blast
next
  case (AddMessage mid cid role content md)
  let ?f = "addMessage_conversation ex now role content (newMessage mid now role content md)"
  have "conversations (apply_op ex now op s) =
          mutate_found (\<lambda>c. conv_id c = cid) ?f (conversations s)"
    by (simp add: AddMessage addMessage_def)
  moreover have "\<forall>c. conv_id (?f c) = conv_id c"
    by (simp add: addMessage_conversation_def Let_def)
  moreover have "\<forall>c. ?f c = c \<or> conv_updatedAt (?f c) = now"
    by (simp add: addMessage_conversation_def Let_def)
  ultimately show ?thesis by blast
next
  case (UpdateMessage cid mid u)
  let ?f = "\<lambda>conversation.
            case find (\<lambda>m. msg_id m = mid) (conv_messages conversation) of
              None \<Rightarrow> conversation
            | Some _ \<Rightarrow>
                conversation\<lparr>conv_messages :=
                  mutate_found (\<lambda>m. msg_id m = mid) (\<lambda>m. assign_message m u)
                    (conv_messages conversation),
                  conv_updatedAt := now\<rparr>"
  have "conversations (apply_op ex now op s) =
          mutate_found (\<lambda>c. conv_id c = cid) ?f (conversations s)"
    by (simp add: UpdateMessage updateMessage_def)
  moreover have "\<forall>c. conv_id (?f c) = conv_id c"
    by (simp split: option.splits)
  moreover have "\<forall>c. ?f c = c \<or> conv_updatedAt (?f c) = now"
    by (simp split: option.splits)
  ultimately show ?thesis by blast
next
  case (UpdateMessageStatus cid mid st)
  let ?f = "\<lambda>conversation.
            case find (\<lambda>m. msg_id m = mid) (conv_messages conversation) of
              None \<Rightarrow> conversation
            | Some _ \<Rightarrow>
                conversation\<lparr>conv_messages :=
                  mutate_found (\<lambda>m. msg_id m = mid)
                    (\<lambda>m. assign_message m (no_updates\<lparr>upd_status := Some (Some st)\<rparr>))
                    (conv_messages conversation),
                  conv_updatedAt := now\<rparr>"
  have "conversations (apply_op ex now op s) =
          mutate_found (\<lambda>c. conv_id c = cid) ?f (conversations s)"
    by (simp add: UpdateMessageStatus updateMessageStatus_def updateMessage_def)
  moreover have "\<forall>c. conv_id (?f c) = conv_id c"
    by (simp split: option.splits)
  moreover have "\<forall>c. ?f c = c \<or> conv_updatedAt (?f c) = now"
    by (simp split: option.splits)
  ultimately show ?thesis by blast
next
  case (DeleteMessage cid mid)
  let ?f = "\<lambda>conversation.
            case find (\<lambda>m. msg_id m = mid) (conv_messages conversation) of
              None \<Rightarrow> conversation
            | Some _ \<Rightarrow>
                conversation\<lparr>conv_messages :=
                  splice_found (\<lambda>m. msg_id m = mid) (conv_messages conversation),
                  conv_updatedAt := now\<rparr>"
  have "conversations (apply_op ex now op s) =
          mutate_found (\<lambda>c. conv_id c = cid) ?f (conversations s)"
    by (simp add: DeleteMessage deleteMessage_def)
  moreover have "\<forall>c. conv_id (?f c) = conv_id c"
    by (simp split: option.splits)
  moreover have "\<forall>c. ?f c = c \<or> conv_updatedAt (?f c) = now"
    by (simp split: option.splits)
  ultimately show ?thesis by blast
next
  case (UpdateConversationTitle cid title)
  let ?f = "\<lambda>conversation. conversation\<lparr>conv_title := title, conv_updatedAt := now\<rparr>"
  have "conversations (apply_op ex now op s) =
          mutate_found (\<lambda>c. conv_id c = cid) ?f (conversations s)"
    by (simp add: UpdateConversationTitle updateConversationTitle_def)
  moreover have "\<forall>c. conv_id (?f c) = conv_id c"
    by simp
  moreover have "\<forall>c. ?f c = c \<or> conv_updatedAt (?f c) = now"
    by simp
  ultimately show ?thesis by blast
next
  case ClearConversations
  then show ?thesis by (simp add: clearConversations_def)
next
  case (SetActiveConversation ident)
  then show ?thesis by (simp add: setActiveConversation_def)
next
  case (AddPendingJob job)
  then show ?thesis by (simp add: addPendingJob_def)
next
  case (RemovePendingJob jobId)
  then show ?thesis by (simp add: removePendingJob_def)
next
  case (UpdatePendingJob jobId updates)
  then show ?thesis by (simp add: updatePendingJob_def split: js_lookup.splits)
next
  case (SetLoading b)
  then show ?thesis by (simp add: setLoading_def)
next
  case (SetSending b)
  then show ?thesis by (simp add: setSending_def)
next
  case (SetError e)
  then show ?thesis by (simp add: setError_def)
next
  case ClearError
  then show ?thesis by (simp add: clearError_def)
next
  case (UpdateSettings u)
  then show ?thesis by (simp add: updateSettings_def)
next
  case ResetSettings
  then show ?thesis by (simp add: resetSettings_def)
next
  case ToggleSidebar
  then show ?thesis by (simp add: toggleSidebar_def)
next
  case (SetSidebarOpen b)
  then show ?thesis by (simp add: setSidebarOpen_def)
next
  case (SetUploadModalOpen b)
  then show ?thesis by (simp add: setUploadModalOpen_def)
qed

lemma apply_op_set:
  assumes "c \<in> set (conversations (apply_op ex now op s))"
  shows "c \<in> set (conversations s) \<or> conv_updatedAt c = now"
proof -
  consider
    (mutated) p f where "conversations (apply_op ex now op s) = mutate_found p f (conversations s)"
      "\<forall>c. f c = c \<or> conv_updatedAt (f c) = now"
  | (created) new where "conversations (apply_op ex now op s) = new # conversations s"
      "conv_updatedAt new = now"
  | (removed) p where "conversations (apply_op ex now op s) = splice_found p (conversations s)"
  | (cleared) "conversations (apply_op ex now op s) = []"
  | (same) "conversations (apply_op ex now op s) = conversations s"
    using apply_op_shape [of ex now op s] by blast
  then show ?thesis
  proof cases
    case mutated
    from assms have "c \<in> set (conversations s) \<or> (\<exists>x \<in> set (conversations s). c = f x)"
      unfolding mutated(1) by (rule mutate_found_set)
    then show ?thesis
    proof
      assume "c \<in> set (conversations s)"
      then show ?thesis by simp
    next
      assume "\<exists>x \<in> set (conversations s). c = f x"
      then obtain x where x: "x \<in> set (conversations s)" "c = f x" by blast
      from mutated(2) [rule_format, of x] x show ?thesis by auto
    qed
  next
    case created
    with assms show ?thesis by auto
  next
    case removed
    with assms show ?thesis by (auto dest: splice_found_set)
  next
    case cleared
    with assms show ?thesis by simp
  next
    case same
    with assms show ?thesis by simp
  qed
qed

lemma apply_op_distinct:
  assumes "distinct (map conv_id (conversations s))" and "creates_fresh_id op s"
  shows "distinct (map conv_id (conversations (apply_op ex now op s)))"
proof -
  consider
    (mutated) p f where "conversations (apply_op ex now op s) = mutate_found p f (conversations s)"
      "\<forall>c. conv_id (f c) = conv_id c"
  | (created) new where "conversations (apply_op ex now op s) = new # conversations s"
      "conv_id new \<notin> conv_id ` set (conversations s)"
  | (removed) p where "conversations (apply_op ex now op s) = splice_found p (conversations s)"
  | (cleared) "conversations (apply_op ex now op s) = []"
  | (same) "conversations (apply_op ex now op s) = conversations s"
    using apply_op_shape [of ex now op s] assms(2) by blast
  then show ?thesis
  proof cases
    case mutated
    have "map conv_id (mutate_found p f (conversations s)) = map conv_id (conversations s)"
      using mutated(2) by (intro mutate_found_ids) simp
    with assms(1) show ?thesis
      unfolding mutated(1) by simp
  next
    case created
    with assms(1) show ?thesis by simp
  next
    case removed
    with assms(1) show ?thesis by (simp add: splice_found_distinct)
  next
    case cleared
    then show ?thesis by simp
  next
    case same
    with assms(1) show ?thesis by simp
  qed
qed

lemma find_by_id_unique:
  assumes "distinct (map conv_id cs)" and "find (\<lambda>c. conv_id c = x) cs = Some c"
    and "c' \<in> set cs" and "conv_id c' = x"
  shows "c' = c"
proof -
  have "c \<in> set cs" and "conv_id c = x"
    using assms(2) by (auto simp: find_Some_iff)
  with assms(1,3,4) show ?thesis
    by (metis distinct_map inj_onD)
qed

lemma run_ops_append: "run_ops ex (ops1 @ ops2) s = run_ops ex ops2 (run_ops ex ops1 s)"
  by (induction ops1 arbitrary: s) auto

lemma ids_fresh_append:
  "ids_fresh ex (ops1 @ ops2) s \<longleftrightarrow> ids_fresh ex ops1 s \<and> ids_fresh ex ops2 (run_ops ex ops1 s)"
  by (induction ops1 arbitrary: s) auto

lemma run_ops_distinct:
  "distinct (map conv_id (conversations s)) \<Longrightarrow> ids_fresh ex ops s \<Longrightarrow>
     distinct (map conv_id (conversations (run_ops ex ops s)))"
  by (induction ops arbitrary: s) (auto simp: apply_op_distinct)

text \<open>Where a conversation of the final state comes from.\<close>

lemma run_ops_set:
  "c \<in> set (conversations (run_ops ex ops s)) \<Longrightarrow>
     c \<in> set (conversations s) \<or> conv_updatedAt c \<in> fst ` set ops"
proof (induction ops arbitrary: s)
  case Nil
  then show ?case by simp
next
  case (Cons a ops)
  obtain now op where a: "a = (now, op)" by (cases a)
  from Cons.prems have "c \<in> set (conversations (run_ops ex ops (apply_op ex now op s)))"
    by (simp add: a)
  from Cons.IH [OF this]
  show ?case
  proof
    assume "c \<in> set (conversations (apply_op ex now op s))"
    from apply_op_set [OF this] show ?thesis
      by (auto simp: a)
  next
    assume "conv_updatedAt c \<in> fst ` set ops"
    then show ?thesis by simp
  qed
qed

lemma run_ops_stamps:
  assumes "sorted (map fst (ops1 @ ops2))"
    and "\<forall>c \<in> set (conversations s). \<forall>t \<in> fst ` set (ops1 @ ops2). conv_updatedAt c \<le> t"
  shows "\<forall>c \<in> set (conversations (run_ops ex ops1 s)). \<forall>t \<in> fst ` set ops2. conv_updatedAt c \<le> t"
proof (intro ballI)
  fix c t
  assume c: "c \<in> set (conversations (run_ops ex ops1 s))" and t: "t \<in> fst ` set ops2"
  from run_ops_set [OF c] show "conv_updatedAt c \<le> t"
  proof
    assume "c \<in> set (conversations s)"
    with assms(2) t show ?thesis by auto
  next
    assume "conv_updatedAt c \<in> fst ` set ops1"
    then obtain a where a: "a \<in> set ops1" "conv_updatedAt c = fst a" by auto
    from t obtain b where b: "b \<in> set ops2" "t = fst b" by auto
    have "\<forall>x \<in> set ops1. \<forall>y \<in> set ops2. fst x \<le> fst y"
      using assms(1) by (simp add: sorted_append)
    with a b show ?thesis by simp
  qed
qed

lemma run_ops_monotone_from_start:
  assumes "\<forall>c \<in> set (conversations s). \<forall>t \<in> fst ` set ops. conv_updatedAt c \<le> t"
    and "distinct (map conv_id (conversations s))"
    and "getConversation s x = Some c"
    and "getConversation (run_ops ex ops s) x = Some c'"
  shows "conv_updatedAt c \<le> conv_updatedAt c'"
proof -
  have c: "c \<in> set (conversations s)"
    using assms(3) by (auto simp: getConversation_def find_Some_iff)
  have c': "c' \<in> set (conversations (run_ops ex ops s))" "conv_id c' = x"
    using assms(4) by (auto simp: getConversation_def find_Some_iff)
  from run_ops_set [OF c'(1)] show ?thesis
  proof
    assume "c' \<in> set (conversations s)"
    with assms(2,3) c'(2) have "c' = c"
      unfolding getConversation_def by (intro find_by_id_unique)
    then show ?thesis by simp
  next
    assume "conv_updatedAt c' \<in> fst ` set ops"
    with assms(1) c show ?thesis by blast
  qed
qed

lemma getConversation_mutated:
  assumes "getConversation s cid = Some c" and "conv_id (f c) = conv_id c"
  shows "find (\<lambda>c. conv_id c = cid)
           (mutate_found (\<lambda>c. conv_id c = cid) f (conversations s)) = Some (f c)"
proof -
  have "conv_id c = cid"
    using assms(1) by (auto simp: getConversation_def find_Some_iff)
  with assms show ?thesis
    unfolding getConversation_def by (intro find_mutate_found_hit) simp_all
qed

text \<open>
  C9. After any action of the store, every conversation of the new state is a
  conversation of the old state or has \<open>updatedAt = now\<close>; with distinct
  conversation ids, the conversation found under an id is the one found before
  or has \<open>updatedAt = now\<close>. \<open>addMessage\<close> and \<open>updateConversationTitle\<close> on a
  conversation of the store, and \<open>updateMessage\<close>, \<open>updateMessageStatus\<close> and
  \<open>deleteMessage\<close> on a message of it, leave that conversation with
  \<open>updatedAt = now\<close>. Along a run of store actions whose clock readings do not
  decrease, on a store with distinct conversation ids and no stamp later than
  the readings, and with a fresh id for every conversation created: the
  \<open>updatedAt\<close> of the conversation found under an id after a prefix of the run is
  at most the \<open>updatedAt\<close> of the one found under that id after any longer prefix.
\<close>

theorem updatedAt_bumped_and_monotone:
  "(\<forall>c' \<in> set (conversations (apply_op ex now op s)).
       c' \<in> set (conversations s) \<or> conv_updatedAt c' = now)
   \<and> (distinct (map conv_id (conversations s)) \<longrightarrow>
        (\<forall>x c c'. getConversation s x = Some c
                  \<and> getConversation (apply_op ex now op s) x = Some c' \<longrightarrow>
                  c' = c \<or> conv_updatedAt c' = now))
   \<and> (\<forall>c. getConversation s cid = Some c \<longrightarrow>
        (\<exists>c'. getConversation (snd (addMessage ex mid now cid role content md s)) cid = Some c'
              \<and> conv_updatedAt c' = now)
        \<and> (\<exists>c'. getConversation (updateConversationTitle now cid title s) cid = Some c'
              \<and> conv_updatedAt c' = now)
        \<and> (find (\<lambda>m. msg_id m = mid) (conv_messages c) \<noteq> None \<longrightarrow>
              (\<exists>c'. getConversation (updateMessage now cid mid u s) cid = Some c'
                    \<and> conv_updatedAt c' = now)
              \<and> (\<exists>c'. getConversation (updateMessageStatus now cid mid status s) cid = Some c'
                    \<and> conv_updatedAt c' = now)
              \<and> (\<exists>c'. getConversation (deleteMessage now cid mid s) cid = Some c'
                    \<and> conv_updatedAt c' = now)))
   \<and> (sorted (map fst (opsA @ opsB))
       \<and> (\<forall>c \<in> set (conversations s). \<forall>t \<in> fst ` set (opsA @ opsB). conv_updatedAt c \<le> t)
       \<and> distinct (map conv_id (conversations s))
       \<and> ids_fresh ex opsA s \<longrightarrow>
       (\<forall>x c1 c2. getConversation (run_ops ex opsA s) x = Some c1
                   \<and> getConversation (run_ops ex (opsA @ opsB) s) x = Some c2 \<longrightarrow>
                   conv_updatedAt c1 \<le> conv_updatedAt c2))"
proof (intro conjI)
  show "\<forall>c' \<in> set (conversations (apply_op ex now op s)).
       c' \<in> set (conversations s) \<or> conv_updatedAt c' = now"
    using apply_op_set by blast
next
  show "distinct (map conv_id (conversations s)) \<longrightarrow>
        (\<forall>x c c'. getConversation s x = Some c
                  \<and> getConversation (apply_op ex now op s) x = Some c' \<longrightarrow>
                  c' = c \<or> conv_updatedAt c' = now)"
  proof (intro impI allI)
    fix x c c'
    assume d: "distinct (map conv_id (conversations s))"
      and g: "getConversation s x = Some c
                  \<and> getConversation (apply_op ex now op s) x = Some c'"
    then have c': "c' \<in> set (conversations (apply_op ex now op s))" "conv_id c' = x"
      by (auto simp: getConversation_def find_Some_iff)
    from apply_op_set [OF c'(1)] show "c' = c \<or> conv_updatedAt c' = now"
    proof
      assume "c' \<in> set (conversations s)"
      with d g c'(2) have "c' = c"
        unfolding getConversation_def by (intro find_by_id_unique) simp_all
      then show ?thesis by simp
    next
      assume "conv_updatedAt c' = now"
      then show ?thesis by simp
    qed
  qed
next
  show "\<forall>c. getConversation s cid = Some c \<longrightarrow>
        (\<exists>c'. getConversation (snd (addMessage ex mid now cid role content md s)) cid = Some c'
              \<and> conv_updatedAt c' = now)
        \<and> (\<exists>c'. getConversation (updateConversationTitle now cid title s) cid = Some c'
              \<and> conv_updatedAt c' = now)
        \<and> (find (\<lambda>m. msg_id m = mid) (conv_messages c) \<noteq> None \<longrightarrow>
              (\<exists>c'. getConversation (updateMessage now cid mid u s) cid = Some c'
                    \<and> conv_updatedAt c' = now)
              \<and> (\<exists>c'. getConversation (updateMessageStatus now cid mid status s) cid = Some c'
                    \<and> conv_updatedAt c' = now)
              \<and> (\<exists>c'. getConversation (deleteMessage now cid mid s) cid = Some c'
                    \<and> conv_updatedAt c' = now))"
  proof (intro allI impI)
    fix c
    assume g: "getConversation s cid = Some c"
    have add: "\<exists>c'. getConversation (snd (addMessage ex mid now cid role content md s)) cid
                      = Some c' \<and> conv_updatedAt c' = now"
      unfolding getConversation_def addMessage_def
      using getConversation_mutated
              [OF g, of "addMessage_conversation ex now role content
                           (newMessage mid now role content md)"]
      by (simp add: addMessage_conversation_def Let_def)
    have title: "\<exists>c'. getConversation (updateConversationTitle now cid title s) cid = Some c'
                      \<and> conv_updatedAt c' = now"
      unfolding getConversation_def updateConversationTitle_def
      using getConversation_mutated
              [OF g, of "\<lambda>conversation. conversation\<lparr>conv_title := title,
                                                     conv_updatedAt := now\<rparr>"]
      by simp
    have msg: "(\<exists>c'. getConversation (updateMessage now cid mid u s) cid = Some c'
                    \<and> conv_updatedAt c' = now)
              \<and> (\<exists>c'. getConversation (updateMessageStatus now cid mid status s) cid = Some c'
                    \<and> conv_updatedAt c' = now)
              \<and> (\<exists>c'. getConversation (deleteMessage now cid mid s) cid = Some c'
                    \<and> conv_updatedAt c' = now)"
      if m: "find (\<lambda>m. msg_id m = mid) (conv_messages c) \<noteq> None"
    proof -
      from m obtain m0 where m0: "find (\<lambda>m. msg_id m = mid) (conv_messages c) = Some m0"
        by blast
      have upd: "\<exists>c'. getConversation (updateMessage now cid mid v s) cid = Some c'
                    \<and> conv_updatedAt c' = now" for v
        unfolding getConversation_def updateMessage_def
        using getConversation_mutated
                [OF g, of "\<lambda>conversation.
                   case find (\<lambda>m. msg_id m = mid) (conv_messages conversation) of
                     None \<Rightarrow> conversation
                   | Some _ \<Rightarrow>
                       conversation\<lparr>conv_messages :=
                         mutate_found (\<lambda>m. msg_id m = mid) (\<lambda>m. assign_message m v)
                           (conv_messages conversation),
                         conv_updatedAt := now\<rparr>"] m0
        by simp
      have del: "\<exists>c'. getConversation (deleteMessage now cid mid s) cid = Some c'
                    \<and> conv_updatedAt c' = now"
        unfolding getConversation_def deleteMessage_def
        using getConversation_mutated
                [OF g, of "\<lambda>conversation.
                   case find (\<lambda>m. msg_id m = mid) (conv_messages conversation) of
                     None \<Rightarrow> conversation
                   | Some _ \<Rightarrow>
                       conversation\<lparr>conv_messages :=
                         splice_found (\<lambda>m. msg_id m = mid) (conv_messages conversation),
                         conv_updatedAt := now\<rparr>"] m0
        by simp
      from upd [of u] upd [of "no_updates\<lparr>upd_status := Some (Some status)\<rparr>"] del
      show ?thesis
        by (simp add: updateMessageStatus_def)
    qed
    have msg': "find (\<lambda>m. msg_id m = mid) (conv_messages c) \<noteq> None \<longrightarrow>
              (\<exists>c'. getConversation (updateMessage now cid mid u s) cid = Some c'
                    \<and> conv_updatedAt c' = now)
              \<and> (\<exists>c'. getConversation (updateMessageStatus now cid mid status s) cid = Some c'
                    \<and> conv_updatedAt c' = now)
              \<and> (\<exists>c'. getConversation (deleteMessage now cid mid s) cid = Some c'
                    \<and> conv_updatedAt c' = now)"
      using msg by (rule impI)
    from add title msg'
    show "(\<exists>c'. getConversation (snd (addMessage ex mid now cid role content md s)) cid = Some c'
              \<and> conv_updatedAt c' = now)
        \<and> (\<exists>c'. getConversation (updateConversationTitle now cid title s) cid = Some c'
              \<and> conv_updatedAt c' = now)
        \<and> (find (\<lambda>m. msg_id m = mid) (conv_messages c) \<noteq> None \<longrightarrow>
              (\<exists>c'. getConversation (updateMessage now cid mid u s) cid = Some c'
                    \<and> conv_updatedAt c' = now)
              \<and> (\<exists>c'. getConversation (updateMessageStatus now cid mid status s) cid = Some c'
                    \<and> conv_updatedAt c' = now)
              \<and> (\<exists>c'. getConversation (deleteMessage now cid mid s) cid = Some c'
                    \<and> conv_updatedAt c' = now))"
      by (intro conjI)
  qed
next
  show "sorted (map fst (opsA @ opsB))
       \<and> (\<forall>c \<in> set (conversations s). \<forall>t \<in> fst ` set (opsA @ opsB). conv_updatedAt c \<le> t)
       \<and> distinct (map conv_id (conversations s))
       \<and> ids_fresh ex opsA s \<longrightarrow>
       (\<forall>x c1 c2. getConversation (run_ops ex opsA s) x = Some c1
                   \<and> getConversation (run_ops ex (opsA @ opsB) s) x = Some c2 \<longrightarrow>
                   conv_updatedAt c1 \<le> conv_updatedAt c2)"
  proof (intro impI allI)
    fix x c1 c2
    assume h: "sorted (map fst (opsA @ opsB))
       \<and> (\<forall>c \<in> set (conversations s). \<forall>t \<in> fst ` set (opsA @ opsB). conv_updatedAt c \<le> t)
       \<and> distinct (map conv_id (conversations s))
       \<and> ids_fresh ex opsA s"
      and g: "getConversation (run_ops ex opsA s) x = Some c1
                   \<and> getConversation (run_ops ex (opsA @ opsB) s) x = Some c2"
    from h have h1: "sorted (map fst (opsA @ opsB))"
      and h2: "\<forall>c \<in> set (conversations s). \<forall>t \<in> fst ` set (opsA @ opsB). conv_updatedAt c \<le> t"
      and h3: "distinct (map conv_id (conversations s))"
      and h4: "ids_fresh ex opsA s"
      by simp_all
    have st: "\<forall>c \<in> set (conversations (run_ops ex opsA s)).
                \<forall>t \<in> fst ` set opsB. conv_updatedAt c \<le> t"
      using h1 h2 by (rule run_ops_stamps)
    have di: "distinct (map conv_id (conversations (run_ops ex opsA s)))"
      using h3 h4 by (rule run_ops_distinct)
    from g have g1: "getConversation (run_ops ex opsA s) x = Some c1"
      and g2: "getConversation (run_ops ex opsB (run_ops ex opsA s)) x = Some c2"
      by (simp_all add: run_ops_append)
    from st di g1 g2 show "conv_updatedAt c1 \<le> conv_updatedAt c2"
      by (rule run_ops_monotone_from_start)
  qed
qed

theorem updatedAt_bumped_and_monotone_witness:
  "sorted (map fst (sample_ops1 @ sample_ops2))
   \<and> conversations sample_state = [sample_conversation]
   \<and> conv_updatedAt sample_conversation = 1000
   \<and> fst ` set (sample_ops1 @ sample_ops2) = {2000, 3000, 3500}
   \<and> distinct (map conv_id (conversations sample_state))
   \<and> ids_fresh id sample_ops1 sample_state
   \<and> (\<exists>c1 c2. getConversation (run_ops id sample_ops1 sample_state) ''c1'' = Some c1
         \<and> getConversation (run_ops id (sample_ops1 @ sample_ops2) sample_state) ''c1'' = Some c2
         \<and> conv_updatedAt c1 = 2000 \<and> conv_updatedAt c2 = 3500
         \<and> conv_updatedAt c1 \<le> conv_updatedAt c2)"
proof -
  have a: "sorted (map fst (sample_ops1 @ sample_ops2))"
    by (simp add: sample_ops1_def sample_ops2_def)
  have b: "conversations sample_state = [sample_conversation]"
    by (simp add: sample_state_def)
  have c: "conv_updatedAt sample_conversation = 1000"
    by (simp add: sample_conversation_def)
  have d: "fst ` set (sample_ops1 @ sample_ops2) = {2000, 3000, 3500}"
    by (auto simp: sample_ops1_def sample_ops2_def)
  have e: "distinct (map conv_id (conversations sample_state))"
    by (simp add: b)
  have f: "ids_fresh id sample_ops1 sample_state"
    by (simp add: sample_ops1_def)
  have hyp: "\<forall>c \<in> set (conversations sample_state).
               \<forall>t \<in> fst ` set (sample_ops1 @ sample_ops2). conv_updatedAt c \<le> t"
    unfolding b d using c by simp
  have v1: "\<exists>c1. getConversation (run_ops id sample_ops1 sample_state) ''c1'' = Some c1
                \<and> conv_updatedAt c1 = 2000"
    by (simp add: sample_ops1_def sample_state_def sample_conversation_def addMessage_def
          addMessage_conversation_def newMessage_def Let_def getConversation_def)
  have v2: "\<exists>c2. getConversation (run_ops id (sample_ops1 @ sample_ops2) sample_state) ''c1''
                  = Some c2 \<and> conv_updatedAt c2 = 3500"
    by (simp add: sample_ops1_def sample_ops2_def sample_state_def sample_conversation_def
          addMessage_def addMessage_conversation_def newMessage_def Let_def
          updateConversationTitle_def deleteMessage_def createConversation_def
          getConversation_def)
  from v1 v2 obtain c1 c2 where
    g: "getConversation (run_ops id sample_ops1 sample_state) ''c1'' = Some c1"
       "getConversation (run_ops id (sample_ops1 @ sample_ops2) sample_state) ''c1'' = Some c2"
       "conv_updatedAt c1 = 2000" "conv_updatedAt c2 = 3500"
    by blast
  have m: "conv_updatedAt c1 \<le> conv_updatedAt c2"
    using updatedAt_bumped_and_monotone
            [where ex = id and s = sample_state and opsA = sample_ops1 and opsB = sample_ops2]
          a hyp e f g(1,2)
    by blast
  show ?thesis
    using a b c d e f g m by blast
qed

section \<open>The polling loop\<close>

lemma pollLoop_continue:
  assumes "of_int (clock (a + 1) - start) < tmo"
    and "g (a + 1) = Inr st"
    and "js_status st \<in> {Queued, Started, Deferred, Scheduled, Stopped}"
  shows "pollLoop clock g start tmo maxI a iv sl =
         pollLoop clock g start tmo maxI (a + 1) (min (iv * (3 / 2)) maxI) (sl @ [iv])"
  using assms by (subst pollLoop.simps) auto

lemma pollLoop_timeout:
  assumes "\<not> of_int (clock (a + 1) - start) < tmo"
  shows "pollLoop clock g start tmo maxI a iv sl =
         Some (Inl (ChatError ''Job polling timed out. Please try again.''
                  (Some ''POLL_TIMEOUT'')), sl)"
  using assms by (subst pollLoop.simps) simp


lemma pollLoop_terminal:
  assumes "of_int (clock (a + 1) - start) < tmo"
    and "g (a + 1) = Inr st"
    and "js_status st \<in> {Finished, Failed, Not_found}"
  shows "pollLoop clock g start tmo maxI a iv sl =
         Some (if js_status st = Finished then Inr st
               else if js_status st = Failed then
                 Inl (ChatError (if truthy (js_error st) then the (js_error st)
                                 else ''Job processing failed'') (Some ''JOB_FAILED''))
               else Inl (ChatError ''Job not found. It may have expired.''
                           (Some ''JOB_NOT_FOUND'')), sl)"
  using assms by (subst pollLoop.simps) auto

lemma pollLoop_rounds:
  assumes "\<forall>i. a < i \<and> i \<le> a + k \<longrightarrow>
             of_int (clock i - start) < tmo
             \<and> (\<exists>st. g i = Inr st \<and> js_status st \<in> {Queued, Started, Deferred, Scheduled, Stopped})"
  shows "pollLoop clock g start tmo maxI a iv sl =
         pollLoop clock g start tmo maxI (a + k)
           (((\<lambda>x. min (x * (3 / 2)) maxI) ^^ k) iv)
           (sl @ map (\<lambda>j. ((\<lambda>x. min (x * (3 / 2)) maxI) ^^ j) iv) [0..<k])"
  using assms
proof (induction k)
  case 0
  then show ?case by simp
next
  case (Suc k)
  have prev: "\<forall>i. a < i \<and> i \<le> a + k \<longrightarrow>
             of_int (clock i - start) < tmo
             \<and> (\<exists>st. g i = Inr st \<and> js_status st \<in> {Queued, Started, Deferred, Scheduled, Stopped})"
    using Suc.prems by simp
  have "a < a + k + 1 \<and> a + k + 1 \<le> a + Suc k"
    by simp
  with Suc.prems obtain st where
    st: "of_int (clock (a + k + 1) - start) < tmo" "g (a + k + 1) = Inr st"
        "js_status st \<in> {Queued, Started, Deferred, Scheduled, Stopped}"
    by blast
  show ?case
    unfolding Suc.IH [OF prev]
    by (subst pollLoop_continue [where a = "a + k" and clock = clock and g = g and st = st,
                                 OF st]) simp
qed





text \<open>
  C1. Suppose the first \<open>k\<close> status responses of a job are non-terminal
  (\<open>queued\<close>, \<open>started\<close>, \<open>deferred\<close>, \<open>scheduled\<close> or \<open>stopped\<close>) and the elapsed time
  read before each of these requests is below the timeout: the loop polls on.
  If the elapsed time read before request \<open>k + 1\<close> has reached the timeout,
  \<open>pollJobUntilComplete\<close> raises the error with code \<open>POLL_TIMEOUT\<close>. Otherwise,
  if response \<open>k + 1\<close> is \<open>finished\<close> it returns that response; if it is \<open>failed\<close>
  it raises \<open>JOB_FAILED\<close> with the error text of the response (the fixed text
  when the response has none or an empty one); if it is \<open>not_found\<close> it raises
  \<open>JOB_NOT_FOUND\<close>. The timeout is the one the caller's options give, and
  120000 ms when they give none.
\<close>

theorem pollJobUntilComplete_outcome:
  fixes clock :: "nat \<Rightarrow> int"
    and getJobStatus :: "string \<Rightarrow> nat \<Rightarrow> chat_error + job_status_response"
    and jobId :: string and options :: poll_options and k :: nat
  defines "tmo \<equiv> (case opt_timeout options of None \<Rightarrow> 120000 | Some t \<Rightarrow> t)"
  assumes polling: "\<forall>i. 0 < i \<and> i \<le> k \<longrightarrow>
             of_int (clock i - clock 0) < tmo
             \<and> (\<exists>st. getJobStatus jobId i = Inr st
                   \<and> js_status st \<in> {Queued, Started, Deferred, Scheduled, Stopped})"
  shows "(\<not> of_int (clock (k + 1) - clock 0) < tmo \<longrightarrow>
            map_option fst (pollJobUntilComplete clock getJobStatus jobId options) =
              Some (Inl (ChatError ''Job polling timed out. Please try again.''
                           (Some ''POLL_TIMEOUT''))))
       \<and> (\<forall>st. of_int (clock (k + 1) - clock 0) < tmo
               \<and> getJobStatus jobId (k + 1) = Inr st \<longrightarrow>
            (js_status st = Finished \<longrightarrow>
               map_option fst (pollJobUntilComplete clock getJobStatus jobId options) =
                 Some (Inr st))
            \<and> (js_status st = Failed \<longrightarrow>
               map_option fst (pollJobUntilComplete clock getJobStatus jobId options) =
                 Some (Inl (ChatError
                         (case js_error st of
                            None \<Rightarrow> ''Job processing failed''
                          | Some e \<Rightarrow> if e = [] then ''Job processing failed'' else e)
                         (Some ''JOB_FAILED''))))
            \<and> (js_status st = Not_found \<longrightarrow>
               map_option fst (pollJobUntilComplete clock getJobStatus jobId options) =
                 Some (Inl (ChatError ''Job not found. It may have expired.''
                              (Some ''JOB_NOT_FOUND'')))))"
proof -
  have tm: "the_timeout options = tmo"
    by (simp add: the_timeout_def tmo_def)
  let ?g = "getJobStatus jobId"
  let ?f = "\<lambda>x. min (x * (3 / 2)) (the_maxInterval options)"
  let ?sl = "map (\<lambda>j. (?f ^^ j) (the_initialInterval options)) [0..<k]"
  have rounds: "\<forall>i. 0 < i \<and> i \<le> 0 + k \<longrightarrow>
             of_int (clock i - clock 0) < tmo
             \<and> (\<exists>st. ?g i = Inr st
                   \<and> js_status st \<in> {Queued, Started, Deferred, Scheduled, Stopped})"
    using polling by simp
  have run: "pollJobUntilComplete clock getJobStatus jobId options =
             pollLoop clock ?g (clock 0) (tmo) (the_maxInterval options) k
               ((?f ^^ k) (the_initialInterval options)) ?sl"
    using pollLoop_rounds [where clock = clock and g = ?g and a = 0 and k = k
                             and maxI = "the_maxInterval options"
                             and iv = "the_initialInterval options" and sl = "[]",
                           OF rounds]
    by (simp add: pollJobUntilComplete_def Let_def tm)
  have t: "\<not> of_int (clock (k + 1) - clock 0) < tmo \<longrightarrow>
            map_option fst (pollJobUntilComplete clock getJobStatus jobId options) =
              Some (Inl (ChatError ''Job polling timed out. Please try again.''
                           (Some ''POLL_TIMEOUT'')))"
    unfolding run by (simp add: pollLoop_timeout)
  have e: "(if truthy (js_error st) then the (js_error st) else ''Job processing failed'') =
           (case js_error st of
              None \<Rightarrow> ''Job processing failed''
            | Some e \<Rightarrow> if e = [] then ''Job processing failed'' else e)" for st
    by (simp add: truthy_def split: option.splits)
  have r: "(js_status st = Finished \<longrightarrow>
               map_option fst (pollJobUntilComplete clock getJobStatus jobId options) =
                 Some (Inr st))
            \<and> (js_status st = Failed \<longrightarrow>
               map_option fst (pollJobUntilComplete clock getJobStatus jobId options) =
                 Some (Inl (ChatError
                         (case js_error st of
                            None \<Rightarrow> ''Job processing failed''
                          | Some e \<Rightarrow> if e = [] then ''Job processing failed'' else e)
                         (Some ''JOB_FAILED''))))
            \<and> (js_status st = Not_found \<longrightarrow>
               map_option fst (pollJobUntilComplete clock getJobStatus jobId options) =
                 Some (Inl (ChatError ''Job not found. It may have expired.''
                              (Some ''JOB_NOT_FOUND''))))"
    if h: "of_int (clock (k + 1) - clock 0) < tmo
               \<and> getJobStatus jobId (k + 1) = Inr st" for st
  proof (cases "js_status st \<in> {Finished, Failed, Not_found}")
    case True
    from h have h1: "of_int (clock (k + 1) - clock 0) < tmo"
      and h2: "?g (k + 1) = Inr st" by simp_all
    show ?thesis
      unfolding run
        pollLoop_terminal [where clock = clock and g = ?g and a = k and st = st,
                           OF h1 h2 True] e
      by simp
  next
    case False
    then show ?thesis by simp
  qed
  from t r show ?thesis by blast
qed

theorem pollJobUntilComplete_outcome_witness:
  "sample_backend 2 ''job1'' 1 = Inr \<lparr>js_status = Started, js_result = None, js_error = None\<rparr>
   \<and> sample_backend 2 ''job1'' 2 = Inr \<lparr>js_status = Started, js_result = None, js_error = None\<rparr>
   \<and> sample_backend 2 ''job1'' 3 = Inr sample_finished
   \<and> js_status sample_finished = Finished
   \<and> opt_timeout default_poll_options = None
   \<and> rat_of_int (sample_clock 3 - sample_clock 0) < 120000
   \<and> map_option fst
         (pollJobUntilComplete sample_clock (sample_backend 2) ''job1'' default_poll_options)
       = Some (Inr sample_finished)
   \<and> opt_timeout short_timeout_options = Some 1500
   \<and> rat_of_int (sample_clock 1 - sample_clock 0) < 1500
   \<and> \<not> rat_of_int (sample_clock 2 - sample_clock 0) < 1500
   \<and> map_option fst
         (pollJobUntilComplete sample_clock (sample_backend 2) ''job1'' short_timeout_options)
       = Some (Inl (ChatError ''Job polling timed out. Please try again.''
                      (Some ''POLL_TIMEOUT'')))"
proof -
  have o: "opt_timeout default_poll_options = None"
    "opt_timeout short_timeout_options = Some 1500"
    by (simp_all add: default_poll_options_def short_timeout_options_def)
  have hyp: "\<forall>i. 0 < i \<and> i \<le> 2 \<longrightarrow>
             of_int (sample_clock i - sample_clock 0)
               < (case opt_timeout default_poll_options of None \<Rightarrow> 120000 | Some t \<Rightarrow> t)
             \<and> (\<exists>st. sample_backend 2 ''job1'' i = Inr st
                   \<and> js_status st \<in> {Queued, Started, Deferred, Scheduled, Stopped})"
    by (auto simp: sample_clock_def sample_backend_def default_poll_options_def)
  have a: "sample_backend 2 ''job1'' 1 = Inr \<lparr>js_status = Started, js_result = None, js_error = None\<rparr>"
    "sample_backend 2 ''job1'' 2 = Inr \<lparr>js_status = Started, js_result = None, js_error = None\<rparr>"
    "sample_backend 2 ''job1'' 3 = Inr sample_finished"
    by (simp_all add: sample_backend_def)
  have b: "js_status sample_finished = Finished"
    by (simp add: sample_finished_def)
  have c: "rat_of_int (sample_clock 3 - sample_clock 0) < 120000"
    by (simp add: sample_clock_def)
  have c': "rat_of_int (sample_clock (2 + 1) - sample_clock 0)
              < (case opt_timeout default_poll_options of None \<Rightarrow> 120000 | Some t \<Rightarrow> t)
            \<and> sample_backend 2 ''job1'' (2 + 1) = Inr sample_finished"
    using a c o by simp
  from pollJobUntilComplete_outcome
         [where clock = sample_clock and getJobStatus = "sample_backend 2"
            and jobId = "''job1''" and k = 2 and options = default_poll_options, OF hyp]
       c' b
  have fin: "map_option fst
         (pollJobUntilComplete sample_clock (sample_backend 2) ''job1'' default_poll_options)
       = Some (Inr sample_finished)"
    by blast
  have hyp1: "\<forall>i. 0 < i \<and> i \<le> 1 \<longrightarrow>
             of_int (sample_clock i - sample_clock 0)
               < (case opt_timeout short_timeout_options of None \<Rightarrow> 120000 | Some t \<Rightarrow> t)
             \<and> (\<exists>st. sample_backend 2 ''job1'' i = Inr st
                   \<and> js_status st \<in> {Queued, Started, Deferred, Scheduled, Stopped})"
    by (auto simp: sample_clock_def sample_backend_def short_timeout_options_def)
  have e: "rat_of_int (sample_clock 1 - sample_clock 0) < 1500"
    "\<not> rat_of_int (sample_clock 2 - sample_clock 0) < 1500"
    by (simp_all add: sample_clock_def)
  have e': "\<not> rat_of_int (sample_clock (1 + 1) - sample_clock 0)
              < (case opt_timeout short_timeout_options of None \<Rightarrow> 120000 | Some t \<Rightarrow> t)"
    by (simp add: sample_clock_def short_timeout_options_def)
  from pollJobUntilComplete_outcome
         [where clock = sample_clock and getJobStatus = "sample_backend 2"
            and jobId = "''job1''" and k = 1 and options = short_timeout_options, OF hyp1]
       e'
  have out: "map_option fst
         (pollJobUntilComplete sample_clock (sample_backend 2) ''job1'' short_timeout_options)
       = Some (Inl (ChatError ''Job polling timed out. Please try again.''
                      (Some ''POLL_TIMEOUT'')))"
    by blast
  show ?thesis
    using a b c o fin e out by simp
qed




section \<open>Ranged upload: partition and final response\<close>

lemma range_index_less:
  assumes "0 < C"
  shows "k < spec_range_count C S \<longleftrightarrow> int k * C < S"
proof -
  have "k < spec_range_count C S \<longleftrightarrow> int k < \<lceil>(of_int S :: rat) / of_int C\<rceil>"
    by (simp add: spec_range_count_def zless_nat_eq_int_zless)
  also have "\<dots> \<longleftrightarrow> (of_int (int k) :: rat) < of_int S / of_int C"
    by (simp add: less_ceiling_iff)
  also have "\<dots> \<longleftrightarrow> (of_int (int k) :: rat) * of_int C < of_int S"
    using assms by (simp add: pos_less_divide_eq)
  also have "\<dots> \<longleftrightarrow> int k * C < S"
    by (simp only: of_int_mult [symmetric] of_int_less_iff)
  finally show ?thesis .
qed

lemma mkChunks_from:
  assumes "0 < C"
  shows "mkChunks (int k * C) S C acc =
         Some (acc @ map (spec_range C S) [k..<spec_range_count C S])"
proof (induction "spec_range_count C S - k" arbitrary: k acc)
  case 0
  then have "\<not> k < spec_range_count C S" by simp
  then have "\<not> int k * C < S"
    using range_index_less [OF assms] by simp
  then show ?case
    using 0 by (subst mkChunks.simps) simp
next
  case (Suc d)
  then have lt: "k < spec_range_count C S" by simp
  then have lt': "int k * C < S"
    using range_index_less [OF assms] by simp
  have d: "d = spec_range_count C S - Suc k"
    using Suc.hyps(2) by simp
  have "mkChunks (int k * C) S C acc =
        mkChunks (int (Suc k) * C) S C (acc @ [spec_range C S k])"
    using lt' by (subst mkChunks.simps) (simp add: spec_range_def algebra_simps)
  also have "\<dots> = Some ((acc @ [spec_range C S k])
                        @ map (spec_range C S) [Suc k..<spec_range_count C S])"
    by (rule Suc.hyps(1) [OF d])
  also have "\<dots> = Some (acc @ map (spec_range C S) [k..<spec_range_count C S])"
    using lt by (simp add: upt_conv_Cons)
  finally show ?case .
qed

lemma mkChunks_spec:
  "0 < C \<Longrightarrow> mkChunks 0 S C [] = Some (map (spec_range C S) [0..<spec_range_count C S])"
  using mkChunks_from [of C 0 S "[]"] by simp

lemma first_rejection_none:
  "\<forall>r \<in> set rs. \<exists>d. r = Inr d \<Longrightarrow> first_rejection rs = None"
  by (induction rs rule: first_rejection.induct) auto

lemma uploadBatches_fulfilled:
  assumes conc: "0 < conc"
    and ok: "\<forall>c \<in> set chunks. \<exists>d. post (range_request_of uid S c) = Inr d"
  shows "uploadBatches post uid S conc chunks i fin sent =
         Some (case fold (\<lambda>c. note_response S c (fulfilled (post (range_request_of uid S c))))
                      (drop i chunks) fin of
                 None \<Rightarrow> Inl (PlainError ''Upload did not complete. No final response received.'')
               | Some r \<Rightarrow> Inr r,
               sent @ map (range_request_of uid S) (drop i chunks))"
proof (induction "length chunks - i" arbitrary: i fin sent rule: less_induct)
  case less
  let ?f = "\<lambda>c. note_response S c (fulfilled (post (range_request_of uid S c)))"
  show ?case
  proof (cases "i < length chunks")
    case False
    then show ?thesis
      by (subst uploadBatches.simps) (simp split: option.splits)
  next
    case True
    let ?batch = "take conc (drop i chunks)"
    have "\<forall>r \<in> set (map post (map (range_request_of uid S) ?batch)). \<exists>d. r = Inr d"
      using ok by (auto dest!: in_set_takeD in_set_dropD)
    then have none: "first_rejection (map post (map (range_request_of uid S) ?batch)) = None"
      by (rule first_rejection_none)
    have smaller: "length chunks - (i + conc) < length chunks - i"
      using True conc by arith
    have "drop i chunks = ?batch @ drop conc (drop i chunks)"
      by (rule append_take_drop_id [symmetric])
    then have split: "drop i chunks = ?batch @ drop (i + conc) chunks"
      by (simp only: drop_drop add.commute [of conc i])
    have step: "uploadBatches post uid S conc chunks i fin sent =
          uploadBatches post uid S conc chunks (i + conc) (fold ?f ?batch fin)
            (sent @ map (range_request_of uid S) ?batch)"
      using True none by (subst uploadBatches.simps) (simp add: Let_def)
    have rest: "uploadBatches post uid S conc chunks (i + conc) (fold ?f ?batch fin)
            (sent @ map (range_request_of uid S) ?batch) =
          Some (case fold ?f (drop (i + conc) chunks) (fold ?f ?batch fin) of
                 None \<Rightarrow> Inl (PlainError ''Upload did not complete. No final response received.'')
               | Some r \<Rightarrow> Inr r,
               (sent @ map (range_request_of uid S) ?batch)
                 @ map (range_request_of uid S) (drop (i + conc) chunks))"
      by (rule less.hyps [OF smaller])
    have "fold ?f (drop i chunks) fin = fold ?f (?batch @ drop (i + conc) chunks) fin"
      by (rule arg_cong [where f = "\<lambda>xs. fold ?f xs fin", OF split])
    then have folds: "fold ?f (drop (i + conc) chunks) (fold ?f ?batch fin)
                      = fold ?f (drop i chunks) fin"
      by simp
    have "map (range_request_of uid S) (drop i chunks)
          = map (range_request_of uid S) (?batch @ drop (i + conc) chunks)"
      by (rule arg_cong [where f = "map (range_request_of uid S)", OF split])
    then have maps: "(sent @ map (range_request_of uid S) ?batch)
                 @ map (range_request_of uid S) (drop (i + conc) chunks)
               = sent @ map (range_request_of uid S) (drop i chunks)"
      by simp
    show ?thesis
      unfolding step rest folds maps ..
  qed
qed

lemma first_rejection_Some: "first_rejection rs = Some e \<Longrightarrow> Inl e \<in> set rs"
  by (induction rs rule: first_rejection.induct) auto

lemma first_rejection_None: "first_rejection rs = None \<Longrightarrow> Inl e \<notin> set rs"
  by (induction rs rule: first_rejection.induct) auto

text \<open>A rejected request among those still to be issued ends the upload with the error of a rejected request.\<close>

lemma uploadBatches_rejected:
  assumes conc: "0 < conc"
  shows "\<exists>c \<in> set (drop i chunks). \<exists>e. post (range_request_of uid S c) = Inl e \<Longrightarrow>
         \<exists>c e sent'. c \<in> set chunks \<and> post (range_request_of uid S c) = Inl e
           \<and> uploadBatches post uid S conc chunks i fin sent
               = Some (Inl (RequestFailed e), sent')"
proof (induction "length chunks - i" arbitrary: i fin sent rule: less_induct)
  case less
  let ?f = "\<lambda>c. note_response S c (fulfilled (post (range_request_of uid S c)))"
  let ?batch = "take conc (drop i chunks)"
  let ?reqs = "map (range_request_of uid S) ?batch"
  from less.prems obtain c0 e0 where
    c0: "c0 \<in> set (drop i chunks)" and e0: "post (range_request_of uid S c0) = Inl e0"
    by blast
  have lt: "i < length chunks"
  proof (rule ccontr)
    assume "\<not> i < length chunks"
    then have "drop i chunks = []" by simp
    with c0 show False by simp
  qed
  show ?case
  proof (cases "first_rejection (map post ?reqs)")
    case (Some e)
    then have "Inl e \<in> set (map post ?reqs)"
      by (rule first_rejection_Some)
    then obtain c where c: "c \<in> set ?batch" and e: "post (range_request_of uid S c) = Inl e"
      by auto
    from c have "c \<in> set (drop i chunks)" by (rule in_set_takeD)
    then have mem: "c \<in> set chunks" by (rule in_set_dropD)
    have run: "uploadBatches post uid S conc chunks i fin sent
               = Some (Inl (RequestFailed e), sent @ ?reqs)"
      using lt Some by (subst uploadBatches.simps) (simp add: Let_def)
    show ?thesis
      by (rule exI [of _ c], rule exI [of _ e], rule exI [of _ "sent @ ?reqs"], intro conjI)
         (rule mem, rule e, rule run)
  next
    case None
    have "Inl e0 \<notin> set (map post ?reqs)"
      using None by (rule first_rejection_None)
    then have nb: "c0 \<notin> set ?batch"
      using e0 by force
    have "drop i chunks = ?batch @ drop conc (drop i chunks)"
      by (rule append_take_drop_id [symmetric])
    then have split: "drop i chunks = ?batch @ drop (i + conc) chunks"
      by (simp only: drop_drop add.commute [of conc i])
    have "c0 \<in> set (?batch @ drop (i + conc) chunks)"
      using c0 by (simp only: split [symmetric])
    with nb have later: "c0 \<in> set (drop (i + conc) chunks)"
      by simp
    have rest: "\<exists>c \<in> set (drop (i + conc) chunks). \<exists>e. post (range_request_of uid S c) = Inl e"
      using later e0 by (intro bexI [of _ c0] exI [of _ e0])
    have smaller: "length chunks - (i + conc) < length chunks - i"
      using lt conc by arith
    have step: "uploadBatches post uid S conc chunks i fin sent =
          uploadBatches post uid S conc chunks (i + conc) (fold ?f ?batch fin) (sent @ ?reqs)"
      using lt None by (subst uploadBatches.simps) (simp add: Let_def)
    show ?thesis
      unfolding step by (rule less.hyps [OF smaller rest])
  qed
qed

lemma fold_note_response_skip:
  "\<forall>c \<in> set cs. chunk_end c + 1 \<noteq> S \<Longrightarrow>
     fold (\<lambda>c. note_response S c (g c)) cs fin = fin"
  by (induction cs arbitrary: fin) (auto simp: note_response_def split: option.splits)

lemma spec_range_not_last:
  assumes "0 < C" and "Suc i < spec_range_count C S"
  shows "chunk_end (spec_range C S i) + 1 \<noteq> S" and "chunk_end (spec_range C S i) < S - 1"
proof -
  have "int (Suc i) * C < S"
    using range_index_less [OF assms(1), of "Suc i" S] assms(2) by simp
  then have "(int i + 1) * C < S"
    by (simp add: algebra_simps)
  then show "chunk_end (spec_range C S i) + 1 \<noteq> S" and "chunk_end (spec_range C S i) < S - 1"
    by (simp_all add: spec_range_def)
qed

lemma spec_range_last:
  assumes "0 < C" and "0 < S"
  shows "0 < spec_range_count C S"
    and "chunk_end (spec_range C S (spec_range_count C S - 1)) = S - 1"
proof -
  show pos: "0 < spec_range_count C S"
    using range_index_less [OF assms(1), of 0 S] assms(2) by simp
  have "\<not> int (spec_range_count C S) * C < S"
    using range_index_less [OF assms(1), of "spec_range_count C S" S] by simp
  moreover have "int (spec_range_count C S - 1) + 1 = int (spec_range_count C S)"
    using pos by simp
  ultimately show "chunk_end (spec_range C S (spec_range_count C S - 1)) = S - 1"
    by (simp add: spec_range_def)
qed

text \<open>With a chunk size that is not positive the first loop of a non-empty file never ends.\<close>

lemma mkChunks_never_ends:
  assumes "C \<le> 0" and "start < S"
  shows "mkChunks start S C acc = None"
proof (rule ccontr)
  assume "mkChunks start S C acc \<noteq> None"
  then obtain r where r: "mkChunks start S C acc = Some r" by blast
  have "C \<le> 0 \<longrightarrow> start < S \<longrightarrow> False"
  proof (rule mkChunks.raw_induct
           [where P = "\<lambda>a b c d y. c \<le> 0 \<longrightarrow> a < b \<longrightarrow> False", OF _ r])
    fix f :: "int \<Rightarrow> int \<Rightarrow> int \<Rightarrow> chunk list \<Rightarrow> chunk list option"
      and st tot cs :: int and chs res :: "chunk list"
    assume IH: "\<And>a b c d y. f a b c d = Some y \<Longrightarrow> c \<le> 0 \<longrightarrow> a < b \<longrightarrow> False"
      and eq: "(if st < tot
                then f (st + cs) tot cs
                       (chs @ [\<lparr>chunk_start = st, chunk_end = min (st + cs) tot - 1\<rparr>])
                else Some chs) = Some res"
    show "cs \<le> 0 \<longrightarrow> st < tot \<longrightarrow> False"
    proof (intro impI)
      assume c: "cs \<le> 0" and s: "st < tot"
      from eq s have "f (st + cs) tot cs
                       (chs @ [\<lparr>chunk_start = st, chunk_end = min (st + cs) tot - 1\<rparr>])
                      = Some res"
        by simp
      from IH [OF this] c s show False by simp
    qed
  qed
  with assms show False by simp
qed

text \<open>
  C2. For a file of size \<open>S > 0\<close> and a chunk size \<open>C > 0\<close> (the one the caller's
  options give, 5 MiB when they give none), \<open>mkChunks\<close> yields the \<open>ceil (S / C)\<close>
  ranges with inclusive bounds \<open>[i * C, min ((i + 1) * C) S - 1]\<close>; every request
  carries the one upload id (the caller's, or the generated one) and the total
  \<open>S\<close>, and only the last ends at \<open>S - 1\<close>. When every range request is answered,
  \<open>ingestRange\<close> issues exactly one request per range, in order, and the result is
  the data of the last request's response when it reports \<open>success\<close>, and the
  error "Upload did not complete" otherwise, whatever the other responses are.
  When a range request is rejected, \<open>ingestRange\<close> ends with the error of a
  rejected request.
\<close>

theorem ingestRange_partition:
  fixes f :: upload_file and options :: ingest_options and generated :: string
    and post :: "range_request \<Rightarrow> chat_error + ingest_document_response option"
  defines "S \<equiv> file_size f"
    and "C \<equiv> (case opt_chunkSize options of None \<Rightarrow> 5 * 1024 * 1024 | Some v \<Rightarrow> v)"
    and "uid \<equiv> (case opt_uploadId options of None \<Rightarrow> generated | Some v \<Rightarrow> v)"
  defines "n \<equiv> spec_range_count C S"
  defines "request \<equiv> \<lambda>i. range_request_of uid S (spec_range C S i)"
  assumes S_pos: "0 < S" and C_pos: "0 < C"
  shows "mkChunks 0 S C [] = Some (map (spec_range C S) [0..<n])
       \<and> 0 < n
       \<and> ((\<forall>i. i < n \<longrightarrow> (\<exists>d. post (request i) = Inr d)) \<longrightarrow>
            ingestRange post generated f options =
              Some (case fulfilled (post (request (n - 1))) of
                      None \<Rightarrow> Inl (PlainError ''Upload did not complete. No final response received.'')
                    | Some d \<Rightarrow>
                        if ir_status d = Success then Inr d
                        else Inl (PlainError ''Upload did not complete. No final response received.''),
                    map request [0..<n]))
       \<and> ((\<exists>i e. i < n \<and> post (request i) = Inl e) \<longrightarrow>
            (\<exists>i e sent. i < n \<and> post (request i) = Inl e
               \<and> ingestRange post generated f options = Some (Inl (RequestFailed e), sent)))
       \<and> (\<forall>i. i < n \<longrightarrow> rq_upload_id (request i) = uid \<and> rq_total (request i) = S
              \<and> rq_start (request i) = int i * C
              \<and> rq_end (request i) = min ((int i + 1) * C) S - 1)
       \<and> rq_end (request (n - 1)) = S - 1
       \<and> (\<forall>i. Suc i < n \<longrightarrow> rq_end (request i) < S - 1)"
proof -
  let ?msg = "''Upload did not complete. No final response received.''"
  let ?f = "\<lambda>c. note_response S c (fulfilled (post (range_request_of uid S c)))"
  let ?cs = "map (spec_range C S) [0..<n]"
  have opts: "the_chunkSize options = C" "the_uploadId generated options = uid"
    by (simp_all add: the_chunkSize_def the_uploadId_def C_def uid_def)
  have chunks: "mkChunks 0 S C [] = Some ?cs"
    unfolding n_def using C_pos by (rule mkChunks_spec)
  have pos: "0 < n"
    unfolding n_def using C_pos S_pos by (rule spec_range_last(1))
  have last_end: "chunk_end (spec_range C S (n - 1)) = S - 1"
    unfolding n_def using C_pos S_pos by (rule spec_range_last(2))
  have not_last: "chunk_end (spec_range C S i) + 1 \<noteq> S" "chunk_end (spec_range C S i) < S - 1"
    if "Suc i < n" for i
    using spec_range_not_last [OF C_pos, of i S] that by (simp_all add: n_def)
  have conc: "0 < nat (the_concurrency options)"
    by (simp add: the_concurrency_def)
  have start: "ingestRange post generated f options =
                 uploadBatches post uid S (nat (the_concurrency options)) ?cs 0 None []"
    using chunks by (simp add: ingestRange_def Let_def opts S_def [symmetric])
  define m where "m = n - 1"
  have last_end_m: "chunk_end (spec_range C S m) = S - 1"
    unfolding m_def by (rule last_end)
  have "[0..<n] = [0..<m] @ [m]"
    unfolding m_def using pos by (metis Suc_diff_1 upt_Suc_append zero_le)
  then have split: "?cs = map (spec_range C S) [0..<m] @ [spec_range C S m]"
    by simp
  have early: "fold ?f (map (spec_range C S) [0..<m]) None = None"
  proof (rule fold_note_response_skip, intro ballI)
    fix c
    assume "c \<in> set (map (spec_range C S) [0..<m])"
    then obtain i where "i < m" "c = spec_range C S i" by auto
    then show "chunk_end c + 1 \<noteq> S"
      using not_last(1) [of i] by (simp add: m_def)
  qed
  have "fold ?f ?cs None = ?f (spec_range C S m) None"
    unfolding split by (simp add: early)
  also have "\<dots> = (case fulfilled (post (request m)) of
                    None \<Rightarrow> None
                  | Some d \<Rightarrow> if ir_status d = Success then Some d else None)"
    by (simp add: note_response_def last_end_m request_def split: option.splits)
  finally have final: "fold ?f ?cs None =
                 (case fulfilled (post (request (n - 1))) of
                    None \<Rightarrow> None
                  | Some d \<Rightarrow> if ir_status d = Success then Some d else None)"
    unfolding m_def .
  have reqs: "map (range_request_of uid S) ?cs = map request [0..<n]"
    by (simp add: request_def)
  have result: "ingestRange post generated f options =
           Some (case fulfilled (post (request (n - 1))) of
                   None \<Rightarrow> Inl (PlainError ?msg)
                 | Some d \<Rightarrow> if ir_status d = Success then Inr d else Inl (PlainError ?msg),
                 map request [0..<n])"
    if answered: "\<forall>i. i < n \<longrightarrow> (\<exists>d. post (request i) = Inr d)"
  proof -
    have ok: "\<forall>c \<in> set ?cs. \<exists>d. post (range_request_of uid S c) = Inr d"
      using answered by (auto simp: request_def)
    have run: "ingestRange post generated f options =
               Some (case fold ?f ?cs None of
                       None \<Rightarrow> Inl (PlainError ?msg)
                     | Some r \<Rightarrow> Inr r,
                     map (range_request_of uid S) ?cs)"
      unfolding start using uploadBatches_fulfilled [OF conc ok, of 0 None "[]"] by simp
    show ?thesis
      unfolding run final reqs by (simp split: option.splits)
  qed
  have failure: "\<exists>i e sent. i < n \<and> post (request i) = Inl e
               \<and> ingestRange post generated f options = Some (Inl (RequestFailed e), sent)"
    if rejected: "\<exists>i e. i < n \<and> post (request i) = Inl e"
  proof -
    from rejected obtain i e where i: "i < n" and e: "post (request i) = Inl e"
      by blast
    have "spec_range C S i \<in> set (drop 0 ?cs)"
      using i by simp
    moreover have "post (range_request_of uid S (spec_range C S i)) = Inl e"
      using e by (simp add: request_def)
    ultimately have "\<exists>c \<in> set (drop 0 ?cs). \<exists>e. post (range_request_of uid S c) = Inl e"
      by blast
    from uploadBatches_rejected [OF conc this, of None "[]"]
    obtain c e' sent where c: "c \<in> set ?cs"
      and e': "post (range_request_of uid S c) = Inl e'"
      and run: "uploadBatches post uid S (nat (the_concurrency options)) ?cs 0 None []
                = Some (Inl (RequestFailed e'), sent)"
      by blast
    from c obtain j where j: "j < n" and cj: "c = spec_range C S j"
      by auto
    have ej: "post (request j) = Inl e'"
      using e' by (simp add: request_def cj)
    have rj: "ingestRange post generated f options = Some (Inl (RequestFailed e'), sent)"
      unfolding start by (rule run)
    show ?thesis
      by (rule exI [of _ j], rule exI [of _ e'], rule exI [of _ sent], intro conjI)
         (rule j, rule ej, rule rj)
  qed
  have fields: "\<forall>i. i < n \<longrightarrow> rq_upload_id (request i) = uid \<and> rq_total (request i) = S
              \<and> rq_start (request i) = int i * C
              \<and> rq_end (request i) = min ((int i + 1) * C) S - 1"
    by (simp add: request_def range_request_of_def spec_range_def)
  have e1: "rq_end (request (n - 1)) = S - 1"
    using last_end by (simp add: request_def range_request_of_def)
  have e2: "\<forall>i. Suc i < n \<longrightarrow> rq_end (request i) < S - 1"
    using not_last(2) by (simp add: request_def range_request_of_def)
  from result have r1: "(\<forall>i. i < n \<longrightarrow> (\<exists>d. post (request i) = Inr d)) \<longrightarrow>
            ingestRange post generated f options =
              Some (case fulfilled (post (request (n - 1))) of
                      None \<Rightarrow> Inl (PlainError ?msg)
                    | Some d \<Rightarrow> if ir_status d = Success then Inr d else Inl (PlainError ?msg),
                    map request [0..<n])"
    by (rule impI)
  from failure have r2: "(\<exists>i e. i < n \<and> post (request i) = Inl e) \<longrightarrow>
            (\<exists>i e sent. i < n \<and> post (request i) = Inl e
               \<and> ingestRange post generated f options = Some (Inl (RequestFailed e), sent))"
    by (rule impI)
  from chunks pos r1 r2 fields e1 e2 show ?thesis
    by (intro conjI)
qed

theorem ingestRange_partition_witness:
  "0 < file_size sample_file
   \<and> opt_chunkSize sample_ingest_options = None
   \<and> file_size sample_file = 12 * 1024 * 1024
   \<and> spec_range_count (5 * 1024 * 1024) (file_size sample_file) = 3
   \<and> ingestRange sample_post ''upload-1'' sample_file sample_ingest_options =
       Some (Inr sample_ingest_response,
             [\<lparr>rq_upload_id = ''upload-1'', rq_start = 0, rq_end = 5242879,
               rq_total = 12582912\<rparr>,
              \<lparr>rq_upload_id = ''upload-1'', rq_start = 5242880, rq_end = 10485759,
               rq_total = 12582912\<rparr>,
              \<lparr>rq_upload_id = ''upload-1'', rq_start = 10485760, rq_end = 12582911,
               rq_total = 12582912\<rparr>])
   \<and> 0 < file_size small_file
   \<and> opt_chunkSize small_ingest_options = Some 4
   \<and> opt_uploadId small_ingest_options = Some ''u7''
   \<and> rejecting_post \<lparr>rq_upload_id = ''u7'', rq_start = 8, rq_end = 9, rq_total = 10\<rparr>
       = Inl sample_rejection
   \<and> map_option fst (ingestRange rejecting_post ''upload-2'' small_file small_ingest_options)
       = Some (Inl (RequestFailed sample_rejection))"
proof -
  have S: "file_size sample_file = 12582912"
    by (simp add: sample_file_def)
  have C: "(case opt_chunkSize sample_ingest_options of None \<Rightarrow> 5 * 1024 * 1024 | Some v \<Rightarrow> v)
           = (5242880 :: int)"
    by (simp add: sample_ingest_options_def)
  have U: "(case opt_uploadId sample_ingest_options of None \<Rightarrow> ''upload-1'' | Some v \<Rightarrow> v)
           = ''upload-1''"
    by (simp add: sample_ingest_options_def)
  have "\<lceil>(of_int 12582912 :: rat) / of_int 5242880\<rceil> = 3"
    by (rule ceiling_unique) simp_all
  then have n: "spec_range_count 5242880 12582912 = 3"
    unfolding spec_range_count_def by simp
  have upt3: "[0..<3] = [0, 1, 2]"
    by (simp add: upt_rec)
  have pos: "0 < file_size sample_file"
    "0 < (case opt_chunkSize sample_ingest_options of None \<Rightarrow> 5 * 1024 * 1024 | Some v \<Rightarrow> v)"
    by (simp_all add: S C)
  have answered: "\<forall>i. i < 3 \<longrightarrow>
                   (\<exists>d. sample_post
                     (range_request_of ''upload-1'' 12582912 (spec_range 5242880 12582912 i))
                       = Inr d)"
    by (simp add: sample_post_def)
  have last_answer:
    "fulfilled (sample_post \<lparr>rq_upload_id = ''upload-1'', rq_start = 10485760,
                              rq_end = 12582911, rq_total = 12582912\<rparr>)
     = Some sample_ingest_response"
    by (simp add: sample_post_def)
  have st: "ir_status sample_ingest_response = Success"
    by (simp add: sample_ingest_response_def)
  note whole = ingestRange_partition
                 [where f = sample_file and options = sample_ingest_options
                    and post = sample_post and generated = "''upload-1''",
                  OF pos, unfolded S C U n upt3]
  from whole have "(\<forall>i. i < 3 \<longrightarrow>
                   (\<exists>d. sample_post
                     (range_request_of ''upload-1'' 12582912 (spec_range 5242880 12582912 i))
                       = Inr d)) \<longrightarrow>
         ingestRange sample_post ''upload-1'' sample_file sample_ingest_options =
           Some (case fulfilled (sample_post (range_request_of ''upload-1'' 12582912
                                   (spec_range 5242880 12582912 (3 - 1)))) of
                   None \<Rightarrow> Inl (PlainError ''Upload did not complete. No final response received.'')
                 | Some d \<Rightarrow>
                     if ir_status d = Success then Inr d
                     else Inl (PlainError ''Upload did not complete. No final response received.''),
                 map (\<lambda>i. range_request_of ''upload-1'' 12582912
                            (spec_range 5242880 12582912 i)) [0, 1, 2])"
    by (elim conjE)
  from this [rule_format, OF answered [rule_format]]
  have r: "ingestRange sample_post ''upload-1'' sample_file sample_ingest_options =
       Some (Inr sample_ingest_response,
             [\<lparr>rq_upload_id = ''upload-1'', rq_start = 0, rq_end = 5242879,
               rq_total = 12582912\<rparr>,
              \<lparr>rq_upload_id = ''upload-1'', rq_start = 5242880, rq_end = 10485759,
               rq_total = 12582912\<rparr>,
              \<lparr>rq_upload_id = ''upload-1'', rq_start = 10485760, rq_end = 12582911,
               rq_total = 12582912\<rparr>])"
    by (simp add: range_request_of_def spec_range_def last_answer st)
  have S': "file_size small_file = 10"
    by (simp add: small_file_def)
  have C': "(case opt_chunkSize small_ingest_options of None \<Rightarrow> 5 * 1024 * 1024 | Some v \<Rightarrow> v)
            = (4 :: int)"
    by (simp add: small_ingest_options_def)
  have U': "(case opt_uploadId small_ingest_options of None \<Rightarrow> ''upload-2'' | Some v \<Rightarrow> v)
            = ''u7''"
    by (simp add: small_ingest_options_def)
  have o': "opt_chunkSize small_ingest_options = Some 4"
    "opt_uploadId small_ingest_options = Some ''u7''"
    "opt_chunkSize sample_ingest_options = None"
    by (simp_all add: small_ingest_options_def sample_ingest_options_def)
  have "\<lceil>(of_int 10 :: rat) / of_int 4\<rceil> = 3"
    by (rule ceiling_unique) simp_all
  then have n': "spec_range_count 4 10 = 3"
    unfolding spec_range_count_def by simp
  have pos': "0 < file_size small_file"
    "0 < (case opt_chunkSize small_ingest_options of None \<Rightarrow> 5 * 1024 * 1024 | Some v \<Rightarrow> v)"
    by (simp_all add: S' C')
  have last_rejected:
    "rejecting_post \<lparr>rq_upload_id = ''u7'', rq_start = 8, rq_end = 9, rq_total = 10\<rparr>
       = Inl sample_rejection"
    by (simp add: rejecting_post_def)
  have "rejecting_post (range_request_of ''u7'' 10 (spec_range 4 10 2)) = Inl sample_rejection"
    by (simp add: range_request_of_def spec_range_def last_rejected)
  then have rejected: "\<exists>i e. i < 3
               \<and> rejecting_post (range_request_of ''u7'' 10 (spec_range 4 10 i)) = Inl e"
    by (intro exI [of _ 2] exI [of _ sample_rejection]) simp
  have only: "e = sample_rejection" if "rejecting_post rq = Inl e" for rq e
    using that by (simp add: rejecting_post_def split: if_splits)
  note small = ingestRange_partition
                 [where f = small_file and options = small_ingest_options
                    and post = rejecting_post and generated = "''upload-2''",
                  OF pos', unfolded S' C' U' n']
  from small have "(\<exists>i e. i < 3
               \<and> rejecting_post (range_request_of ''u7'' 10 (spec_range 4 10 i)) = Inl e) \<longrightarrow>
            (\<exists>i e sent. i < 3
               \<and> rejecting_post (range_request_of ''u7'' 10 (spec_range 4 10 i)) = Inl e
               \<and> ingestRange rejecting_post ''upload-2'' small_file small_ingest_options
                   = Some (Inl (RequestFailed e), sent))"
    by (elim conjE)
  from this [rule_format, OF rejected]
  obtain i e sent where
    e: "rejecting_post (range_request_of ''u7'' 10 (spec_range 4 10 i)) = Inl e"
    and run: "ingestRange rejecting_post ''upload-2'' small_file small_ingest_options
                = Some (Inl (RequestFailed e), sent)"
    by blast
  have r': "map_option fst (ingestRange rejecting_post ''upload-2'' small_file small_ingest_options)
            = Some (Inl (RequestFailed sample_rejection))"
    using run only [OF e] by simp
  show ?thesis
    using pos(1) pos'(1) o' S n r last_rejected r' by simp
qed

text \<open>
  C2 (as stated) fails when the request of the last range is rejected: every
  other range is answered, and \<open>ingestRange\<close> ends with the error of the rejected
  request, not with the error "Upload did not complete". It fails also for a
  chunk size of 0, with which the loop that builds the ranges never ends.
\<close>

theorem ingestRange_rejected_final_range:
  "rejecting_post \<lparr>rq_upload_id = ''upload-1'', rq_start = 0, rq_end = 5242879,
                    rq_total = 12582912\<rparr> = Inr None
   \<and> rejecting_post \<lparr>rq_upload_id = ''upload-1'', rq_start = 5242880, rq_end = 10485759,
                      rq_total = 12582912\<rparr> = Inr None
   \<and> rejecting_post \<lparr>rq_upload_id = ''upload-1'', rq_start = 10485760, rq_end = 12582911,
                      rq_total = 12582912\<rparr> = Inl sample_rejection
   \<and> ingestRange rejecting_post ''upload-1'' sample_file sample_ingest_options =
       Some (Inl (RequestFailed sample_rejection),
             [\<lparr>rq_upload_id = ''upload-1'', rq_start = 0, rq_end = 5242879,
               rq_total = 12582912\<rparr>,
              \<lparr>rq_upload_id = ''upload-1'', rq_start = 5242880, rq_end = 10485759,
               rq_total = 12582912\<rparr>,
              \<lparr>rq_upload_id = ''upload-1'', rq_start = 10485760, rq_end = 12582911,
               rq_total = 12582912\<rparr>])
   \<and> RequestFailed sample_rejection
       \<noteq> PlainError ''Upload did not complete. No final response received.''
   \<and> ingestRange sample_post ''upload-1'' sample_file
         (sample_ingest_options\<lparr>opt_chunkSize := Some 0\<rparr>) = None"
proof -
  have a: "rejecting_post \<lparr>rq_upload_id = ''upload-1'', rq_start = 0, rq_end = 5242879,
                    rq_total = 12582912\<rparr> = Inr None"
    "rejecting_post \<lparr>rq_upload_id = ''upload-1'', rq_start = 5242880, rq_end = 10485759,
                      rq_total = 12582912\<rparr> = Inr None"
    "rejecting_post \<lparr>rq_upload_id = ''upload-1'', rq_start = 10485760, rq_end = 12582911,
                      rq_total = 12582912\<rparr> = Inl sample_rejection"
    by (simp_all add: rejecting_post_def)
  have "\<lceil>(of_int 12582912 :: rat) / of_int 5242880\<rceil> = 3"
    by (rule ceiling_unique) simp_all
  then have n: "spec_range_count 5242880 12582912 = 3"
    unfolding spec_range_count_def by simp
  have upt3: "[0..<3] = [0, 1, 2]"
    by (simp add: upt_rec)
  have chunks: "mkChunks 0 12582912 5242880 [] =
                  Some [\<lparr>chunk_start = 0, chunk_end = 5242879\<rparr>,
                        \<lparr>chunk_start = 5242880, chunk_end = 10485759\<rparr>,
                        \<lparr>chunk_start = 10485760, chunk_end = 12582911\<rparr>]"
    using mkChunks_spec [of 5242880 12582912]
    unfolding n upt3 by (simp add: spec_range_def)
  have batch: "uploadBatches rejecting_post ''upload-1'' 12582912 4
                 [\<lparr>chunk_start = 0, chunk_end = 5242879\<rparr>,
                  \<lparr>chunk_start = 5242880, chunk_end = 10485759\<rparr>,
                  \<lparr>chunk_start = 10485760, chunk_end = 12582911\<rparr>] 0 None [] =
       Some (Inl (RequestFailed sample_rejection),
             [\<lparr>rq_upload_id = ''upload-1'', rq_start = 0, rq_end = 5242879,
               rq_total = 12582912\<rparr>,
              \<lparr>rq_upload_id = ''upload-1'', rq_start = 5242880, rq_end = 10485759,
               rq_total = 12582912\<rparr>,
              \<lparr>rq_upload_id = ''upload-1'', rq_start = 10485760, rq_end = 12582911,
               rq_total = 12582912\<rparr>])"
    by (subst uploadBatches.simps) (simp add: Let_def range_request_of_def a)
  have conc: "nat (the_concurrency sample_ingest_options) = 4"
    by (simp add: the_concurrency_def sample_ingest_options_def)
  have opts: "the_chunkSize sample_ingest_options = 5242880"
    "the_uploadId ''upload-1'' sample_ingest_options = ''upload-1''"
    "file_size sample_file = 12582912"
    by (simp_all add: the_chunkSize_def the_uploadId_def sample_ingest_options_def
          sample_file_def)
  have r: "ingestRange rejecting_post ''upload-1'' sample_file sample_ingest_options =
       Some (Inl (RequestFailed sample_rejection),
             [\<lparr>rq_upload_id = ''upload-1'', rq_start = 0, rq_end = 5242879,
               rq_total = 12582912\<rparr>,
              \<lparr>rq_upload_id = ''upload-1'', rq_start = 5242880, rq_end = 10485759,
               rq_total = 12582912\<rparr>,
              \<lparr>rq_upload_id = ''upload-1'', rq_start = 10485760, rq_end = 12582911,
               rq_total = 12582912\<rparr>])"
    using batch
    by (simp add: ingestRange_def Let_def opts conc chunks)
  have "mkChunks 0 12582912 0 [] = None"
    by (rule mkChunks_never_ends) simp_all
  then have z: "ingestRange sample_post ''upload-1'' sample_file
                  (sample_ingest_options\<lparr>opt_chunkSize := Some 0\<rparr>) = None"
    by (simp add: ingestRange_def Let_def the_chunkSize_def sample_ingest_options_def
          sample_file_def)
  show ?thesis
    using a r z by simp
qed

end
